theory Spec2Isabelle
  imports Main "HOL-Library.Word" "HOL-Library.Char_ord" "HOL-Library.List_Lexorder"
begin

section \<open>Python values\<close>

text \<open>
  The checkpoint store of \<^verbatim>\<open>backend/utils.py\<close> works on dynamically typed Python
  values. \<open>pyval\<close> is the part of that universe the object codec distinguishes: the
  JSON primitives, lists, tuples, dicts (association lists in insertion order, keys
  distinct), \<^verbatim>\<open>datetime\<close> objects, objects that have a \<^verbatim>\<open>__dict__\<close> (class name and
  attributes), and every other object (type name and the result of \<^verbatim>\<open>str(obj)\<close>,
  \<open>None\<close> when \<^verbatim>\<open>str\<close> raises). A float is its 64-bit pattern.
\<close>

record datetime =
  year :: nat
  month :: nat
  day :: nat
  hour :: nat
  minute :: nat
  second :: nat
  microsecond :: nat
  utcoffset :: "int option"

datatype pyval =
    PNone
  | PBool bool
  | PInt int
  | PFloat "64 word"
  | PStr string
  | PList "pyval list"
  | PTuple "pyval list"
  | PDict "(string \<times> pyval) list"
  | PDatetime datetime
  | PObject string "(string \<times> pyval) list"
  | POther string "string option"

type_synonym bytes = string

record Checkpoint =
  ck_id :: string
  channel_values :: "(string \<times> pyval) list option"

datatype any = AnyCheckpoint Checkpoint | AnyValue pyval

record env =
  isoformat :: "datetime \<Rightarrow> string"
  fromisoformat :: "string \<Rightarrow> datetime option"
  serde_dumps_typed :: "any \<Rightarrow> (string \<times> bytes) option"
  serde_loads_typed :: "string \<times> bytes \<Rightarrow> any option"
  serde_dumps :: "any \<Rightarrow> bytes option"
  serde_loads :: "bytes \<Rightarrow> any option"
  b64encode :: "bytes \<Rightarrow> string"
  b64decode :: "string \<Rightarrow> bytes option"

fun dict_set :: "string \<Rightarrow> 'v \<Rightarrow> (string \<times> 'v) list \<Rightarrow> (string \<times> 'v) list" where
  "dict_set k v [] = [(k, v)]"
| "dict_set k v (p # ps) = (if fst p = k then (k, v) # ps else p # dict_set k v ps)"

fun dict_update :: "(string \<times> 'v) list \<Rightarrow> (string \<times> 'v) list \<Rightarrow> (string \<times> 'v) list" where
  "dict_update d [] = d"
| "dict_update d ((k, v) # kvs) = dict_update (dict_set k v d) kvs"

definition dict_get :: "(string \<times> 'v) list \<Rightarrow> string \<Rightarrow> 'v \<Rightarrow> 'v" where
  "dict_get d k dflt = (case map_of d k of Some v \<Rightarrow> v | None \<Rightarrow> dflt)"

fun serialize_for_cosmosdb :: "env \<Rightarrow> pyval \<Rightarrow> pyval" where
  "serialize_for_cosmosdb E (PObject cls attrs) =
     (case (map_of attrs ''content'', map_of attrs ''type'') of
        (Some content, Some ty) \<Rightarrow>
          PDict [(''_type'', PStr cls),
                 (''content'', content),
                 (''type'', ty),
                 (''additional_kwargs'', dict_get attrs ''additional_kwargs'' (PDict [])),
                 (''response_metadata'', dict_get attrs ''response_metadata'' (PDict [])),
                 (''id'', dict_get attrs ''id'' PNone)]
      | _ \<Rightarrow>
          PDict (dict_update [(''_type'', PStr cls)]
                   (map (\<lambda>(k, v). (k, serialize_for_cosmosdb E v)) attrs)))"
| "serialize_for_cosmosdb E (PDict kvs) =
     PDict (map (\<lambda>(k, v). (k, serialize_for_cosmosdb E v)) kvs)"
| "serialize_for_cosmosdb E (PList xs) = PList (map (serialize_for_cosmosdb E) xs)"
| "serialize_for_cosmosdb E (PTuple xs) = PList (map (serialize_for_cosmosdb E) xs)"
| "serialize_for_cosmosdb E (PStr s) = PStr s"
| "serialize_for_cosmosdb E (PInt i) = PInt i"
| "serialize_for_cosmosdb E (PFloat f) = PFloat f"
| "serialize_for_cosmosdb E (PBool b) = PBool b"
| "serialize_for_cosmosdb E PNone = PNone"
| "serialize_for_cosmosdb E (PDatetime dt) = PStr (isoformat E dt)"
| "serialize_for_cosmosdb E (POther tyname s) =
     (case s of Some r \<Rightarrow> PStr r
      | None \<Rightarrow> PStr (''<unserializable: '' @ tyname @ ''>''))"

text \<open>
  The string tests of the decoder: \<^verbatim>\<open>obj.endswith('Z')\<close>, \<^verbatim>\<open>obj[-6:]\<close> (the last six
  characters, the whole string when it is shorter) and \<^verbatim>\<open>obj.replace('Z', '+00:00')\<close>.
\<close>

definition endswith_Z :: "string \<Rightarrow> bool" where
  "endswith_Z s = (s \<noteq> [] \<and> last s = CHR ''Z'')"

definition last6 :: "string \<Rightarrow> string" where
  "last6 s = drop (length s - 6) s"

definition replace_Z :: "string \<Rightarrow> string" where
  "replace_Z s = concat (map (\<lambda>c. if c = CHR ''Z'' then ''+00:00'' else [c]) s)"

definition looks_like_iso :: "string \<Rightarrow> bool" where
  "looks_like_iso s =
     (length s > 10 \<and> CHR ''T'' \<in> set s \<and> (endswith_Z s \<or> CHR ''+'' \<in> set (last6 s)))"

text \<open>
  The message classes come from \<^verbatim>\<open>langchain_core.messages\<close>. A message is an object
  whose attributes are the five fields the codec reads and writes; the class fixes the
  value of \<^verbatim>\<open>type\<close>. The constructor stores the keyword arguments it is given.
\<close>

definition message_type :: "string \<Rightarrow> string" where
  "message_type cls =
     (if cls = ''HumanMessage'' then ''human''
      else if cls = ''AIMessage'' then ''ai''
      else ''system'')"

definition message_class :: "string \<Rightarrow> pyval \<Rightarrow> pyval \<Rightarrow> pyval \<Rightarrow> pyval \<Rightarrow> pyval" where
  "message_class cls content additional_kwargs response_metadata ident =
     PObject cls
       [(''content'', content),
        (''additional_kwargs'', additional_kwargs),
        (''response_metadata'', response_metadata),
        (''type'', PStr (message_type cls)),
        (''id'', ident)]"

definition message_class_names :: "string list" where
  "message_class_names = [''HumanMessage'', ''AIMessage'', ''SystemMessage'']"

fun deserialize_from_cosmosdb :: "env \<Rightarrow> pyval \<Rightarrow> pyval" where
  "deserialize_from_cosmosdb E (PDict kvs) =
     (case map_of kvs ''_type'' of
        Some obj_type \<Rightarrow>
          (if obj_type \<in> set (map PStr message_class_names) then
             message_class (case obj_type of PStr n \<Rightarrow> n | _ \<Rightarrow> ''HumanMessage'')
               (dict_get kvs ''content'' (PStr []))
               (dict_get kvs ''additional_kwargs'' (PDict []))
               (dict_get kvs ''response_metadata'' (PDict []))
               (dict_get kvs ''id'' PNone)
           else
             PDict (map (\<lambda>(k, v). (k, deserialize_from_cosmosdb E v))
                      (filter (\<lambda>(k, v). k \<noteq> ''_type'') kvs)))
      | None \<Rightarrow> PDict (map (\<lambda>(k, v). (k, deserialize_from_cosmosdb E v)) kvs))"
| "deserialize_from_cosmosdb E (PList xs) = PList (map (deserialize_from_cosmosdb E) xs)"
| "deserialize_from_cosmosdb E (PStr s) =
     (if looks_like_iso s then
        (case fromisoformat E (replace_Z s) of
           Some dt \<Rightarrow> PDatetime dt
         | None \<Rightarrow> PStr s)
      else PStr s)"
| "deserialize_from_cosmosdb E obj = obj"

text \<open>
  The supported message variants, and the trees built from the recognised constructs:
  messages, dicts, lists, strings, numbers, booleans and \<^verbatim>\<open>None\<close>.
\<close>

definition is_message :: "pyval \<Rightarrow> bool" where
  "is_message m =
     (case m of
        PObject cls attrs \<Rightarrow>
          cls \<in> set message_class_names \<and>
          m = message_class cls (dict_get attrs ''content'' PNone)
                (dict_get attrs ''additional_kwargs'' PNone)
                (dict_get attrs ''response_metadata'' PNone)
                (dict_get attrs ''id'' PNone)
      | _ \<Rightarrow> False)"

fun recognized :: "pyval \<Rightarrow> bool" where
  "recognized (PObject cls attrs) = is_message (PObject cls attrs)"
| "recognized (PDict kvs) = (\<forall>(k, v) \<in> set kvs. recognized v)"
| "recognized (PList xs) = (\<forall>x \<in> set xs. recognized x)"
| "recognized (PTuple xs) = False"
| "recognized (PDatetime dt) = False"
| "recognized (POther tyname s) = False"
| "recognized obj = True"

text \<open>
  The trees the decoder leaves alone: no dict of the tree has the key \<^verbatim>\<open>_type\<close> (the
  encoder's own tag) and no string of it passes the decoder's test for an ISO timestamp.
\<close>

fun untagged :: "pyval \<Rightarrow> bool" where
  "untagged (PObject cls attrs) = True"
| "untagged (PDict kvs) =
     (map_of kvs ''_type'' = None \<and> (\<forall>(k, v) \<in> set kvs. untagged v))"
| "untagged (PList xs) = (\<forall>x \<in> set xs. untagged x)"
| "untagged (PTuple xs) = (\<forall>x \<in> set xs. untagged x)"
| "untagged (PStr s) = (\<not> looks_like_iso s)"
| "untagged obj = True"

section \<open>The document store\<close>

text \<open>
  Exceptions are values. \<open>CosmosHttpResponseError\<close> stands for any failure of a storage
  request, \<open>CosmosResourceNotFoundError\<close> is what \<^verbatim>\<open>delete_item\<close> raises for a
  document that does not exist.
\<close>

datatype error =
    AssertionError
  | KeyError string
  | ValueError
  | TypeError
  | RuntimeError
  | CosmosHttpResponseError
  | CosmosResourceNotFoundError

definition bind_result :: "error + 'a \<Rightarrow> ('a \<Rightarrow> error + 'b) \<Rightarrow> error + 'b" where
  "bind_result m f = (case m of Inl e \<Rightarrow> Inl e | Inr x \<Rightarrow> f x)"

text \<open>
  The three containers hold the documents the saver writes. A container is the list of
  its documents in the order they were first inserted; within a container a document is
  identified by its partition key and its \<^verbatim>\<open>id\<close>. A query without \<^verbatim>\<open>ORDER BY\<close> returns
  the matching documents in container order.
\<close>

record checkpoint_doc =
  cd_id :: string
  cd_parent_checkpoint_id :: "string option"
  cd_type :: string
  cd_checkpoint :: string
  cd_metadata :: string
  cd_thread_id :: string
  cd_checkpoint_ns :: string
  cd_checkpoint_id :: string

record write_doc =
  wd_id :: string
  wd_thread_id :: string
  wd_checkpoint_ns :: string
  wd_checkpoint_id :: string
  wd_task_id :: string
  wd_idx :: nat
  wd_channel :: string
  wd_type :: string
  wd_value :: string

record conversation_doc =
  cv_id :: string
  cv_userId :: string
  cv_lastUpdated :: string
  cv_messages :: pyval
  cv_checkpointId :: string
  cv_metadata :: pyval

datatype level = INFO | WARNING | ERROR

record store =
  conversations_container :: "conversation_doc list"
  checkpoints_container :: "checkpoint_doc list"
  writes_container :: "write_doc list"
  logger :: "(level \<times> string) list"

definition conversation_key :: "conversation_doc \<Rightarrow> string \<times> string" where
  "conversation_key d = (cv_userId d, cv_id d)"

definition checkpoint_key :: "checkpoint_doc \<Rightarrow> string \<times> string" where
  "checkpoint_key d = (cd_thread_id d, cd_id d)"

definition write_key :: "write_doc \<Rightarrow> string \<times> string" where
  "write_key d = (wd_thread_id d, wd_id d)"

text \<open>
  Every request to the store may fail. Which ones do is an input of each operation:
  \<open>faults r\<close> says that the request \<open>r\<close> raises.
\<close>

datatype request =
    QueryConversations
  | QueryCheckpoints
  | QueryWrites
  | UpsertConversation string
  | UpsertCheckpoint string
  | UpsertWrite string
  | DeleteConversation string
  | DeleteCheckpoint string
  | DeleteWrite string

type_synonym faults = "request \<Rightarrow> bool"

definition no_faults :: faults where
  "no_faults r = False"

fun upsert_docs :: "('d \<Rightarrow> 'k) \<Rightarrow> 'd \<Rightarrow> 'd list \<Rightarrow> 'd list" where
  "upsert_docs key d [] = [d]"
| "upsert_docs key d (x # xs) =
     (if key x = key d then d # xs else x # upsert_docs key d xs)"

definition upsert_item :: "bool \<Rightarrow> ('d \<Rightarrow> 'k) \<Rightarrow> 'd \<Rightarrow> 'd list \<Rightarrow> error + 'd list" where
  "upsert_item fault key d docs =
     (if fault then Inl CosmosHttpResponseError else Inr (upsert_docs key d docs))"

definition delete_item :: "bool \<Rightarrow> ('d \<Rightarrow> 'k) \<Rightarrow> 'k \<Rightarrow> 'd list \<Rightarrow> error + 'd list" where
  "delete_item fault key k docs =
     (if fault then Inl CosmosHttpResponseError
      else if k \<in> set (map key docs) then Inr (filter (\<lambda>d. key d \<noteq> k) docs)
      else Inl CosmosResourceNotFoundError)"

definition query_items :: "bool \<Rightarrow> ('d \<Rightarrow> bool) \<Rightarrow> 'd list \<Rightarrow> error + 'd list" where
  "query_items fault cond docs =
     (if fault then Inl CosmosHttpResponseError else Inr (filter cond docs))"

text \<open>
  A condition \<^verbatim>\<open>c.field = @name\<close> of a query holds for a document when the parameter is
  bound to the value of the field; it holds for no document when the parameter list
  does not bind \<^verbatim>\<open>@name\<close>.
\<close>

definition where_eq :: "(string \<times> string) list \<Rightarrow> ('d \<Rightarrow> string) \<Rightarrow> string \<Rightarrow> 'd \<Rightarrow> bool" where
  "where_eq parameters field name c = (map_of parameters name = Some (field c))"

definition where_less :: "(string \<times> string) list \<Rightarrow> ('d \<Rightarrow> string) \<Rightarrow> string \<Rightarrow> 'd \<Rightarrow> bool" where
  "where_less parameters field name c =
     (case map_of parameters name of Some v \<Rightarrow> field c < v | None \<Rightarrow> False)"

definition order_by_desc :: "('d \<Rightarrow> string) \<Rightarrow> 'd list \<Rightarrow> 'd list" where
  "order_by_desc field docs = rev (sort_key field docs)"

section \<open>The typed codec\<close>

definition dumps_typed :: "env \<Rightarrow> any \<Rightarrow> error + (string \<times> string)" where
  "dumps_typed E obj =
     (case serde_dumps_typed E obj of
        Some (type_, serialized_) \<Rightarrow> Inr (type_, b64encode E serialized_)
      | None \<Rightarrow> Inl ValueError)"

definition loads_typed :: "env \<Rightarrow> string \<times> string \<Rightarrow> error + any" where
  "loads_typed E data =
     (case b64decode E (snd data) of
        Some raw \<Rightarrow>
          (case serde_loads_typed E (fst data, raw) of
             Some obj \<Rightarrow> Inr obj
           | None \<Rightarrow> Inl ValueError)
      | None \<Rightarrow> Inl ValueError)"

definition dumps :: "env \<Rightarrow> any \<Rightarrow> error + string" where
  "dumps E obj =
     (case serde_dumps E obj of
        Some serialized_ \<Rightarrow> Inr (b64encode E serialized_)
      | None \<Rightarrow> Inl ValueError)"

definition loads :: "env \<Rightarrow> string \<Rightarrow> error + any" where
  "loads E data =
     (case b64decode E data of
        Some raw \<Rightarrow>
          (case serde_loads E raw of
             Some obj \<Rightarrow> Inr obj
           | None \<Rightarrow> Inl ValueError)
      | None \<Rightarrow> Inl ValueError)"

section \<open>Configs and checkpoint tuples\<close>

text \<open>
  A \<^verbatim>\<open>RunnableConfig\<close> is a dict that may have the key \<^verbatim>\<open>configurable\<close>, itself a dict
  from names to strings. \<open>getitem\<close> is \<^verbatim>\<open>d[k]\<close>, \<open>dict_get\<close> is \<^verbatim>\<open>d.get(k, default)\<close>
  and \<open>map_of d k\<close> is \<^verbatim>\<open>d.get(k)\<close>.
\<close>

type_synonym configurable = "(string \<times> string) list"

type_synonym RunnableConfig = "configurable option"

record CheckpointTuple =
  tup_config :: RunnableConfig
  tup_checkpoint :: any
  tup_metadata :: any
  tup_parent_config :: "RunnableConfig option"
  tup_pending_writes :: "(string \<times> string \<times> any) list option"

definition getitem :: "(string \<times> 'v) list \<Rightarrow> string \<Rightarrow> error + 'v" where
  "getitem d k = (case map_of d k of Some v \<Rightarrow> Inr v | None \<Rightarrow> Inl (KeyError k))"

definition truthy :: "string option \<Rightarrow> bool" where
  "truthy v = (case v of Some s \<Rightarrow> s \<noteq> [] | None \<Rightarrow> False)"

text \<open>\<^verbatim>\<open>get_checkpoint_id\<close> of \<^verbatim>\<open>langgraph.checkpoint.base\<close>.\<close>

definition get_checkpoint_id :: "RunnableConfig \<Rightarrow> error + string option" where
  "get_checkpoint_id config =
     (case config of
        None \<Rightarrow> Inl (KeyError ''configurable'')
      | Some configurable \<Rightarrow> Inr (map_of configurable ''checkpoint_id''))"

text \<open>\<^verbatim>\<open>str(idx)\<close> for the index of a write: its decimal digits.\<close>

definition digit_char :: "nat \<Rightarrow> char" where
  "digit_char d = ''0123456789'' ! d"

fun str_nat :: "nat \<Rightarrow> string" where
  "str_nat n = (if n < 10 then [digit_char n] else str_nat (n div 10) @ [digit_char (n mod 10)])"

declare str_nat.simps [simp del]

section \<open>Reading checkpoints\<close>

fun load_pending_writes :: "env \<Rightarrow> write_doc list \<Rightarrow> error + (string \<times> string \<times> any) list" where
  "load_pending_writes E [] = Inr []"
| "load_pending_writes E (write_doc # rest) =
     bind_result (loads_typed E (wd_type write_doc, wd_value write_doc)) (\<lambda>v.
     bind_result (load_pending_writes E rest) (\<lambda>vs.
     Inr ((wd_task_id write_doc, wd_channel write_doc, v) # vs)))"

definition parent_config_of :: "string \<Rightarrow> string \<Rightarrow> checkpoint_doc \<Rightarrow> RunnableConfig option" where
  "parent_config_of thread_id checkpoint_ns doc =
     (if truthy (cd_parent_checkpoint_id doc) then
        Some (Some [(''thread_id'', thread_id),
                    (''checkpoint_ns'', checkpoint_ns),
                    (''checkpoint_id'', the (cd_parent_checkpoint_id doc))])
      else None)"

text \<open>
  The body of the \<^verbatim>\<open>try\<close> block of \<^verbatim>\<open>aget_tuple\<close>, in two parts: what is done with
  the first document of a non-empty query result, and the lookup before it.
\<close>

definition aget_tuple_result ::
  "env \<Rightarrow> faults \<Rightarrow> store \<Rightarrow> string \<Rightarrow> string \<Rightarrow> checkpoint_doc \<Rightarrow> error + CheckpointTuple option" where
  "aget_tuple_result E faults s thread_id checkpoint_ns doc =
     bind_result (loads_typed E (cd_type doc, cd_checkpoint doc)) (\<lambda>checkpoint.
     let writes_parameters = [(''@thread_id'', thread_id),
                              (''@checkpoint_ns'', checkpoint_ns),
                              (''@checkpoint_id'', cd_checkpoint_id doc)] in
     bind_result
       (query_items (faults QueryWrites)
          (\<lambda>c. where_eq writes_parameters wd_thread_id ''@thread_id'' c
             \<and> where_eq writes_parameters wd_checkpoint_ns ''@checkpoint_ns'' c
             \<and> where_eq writes_parameters wd_checkpoint_id ''@checkpoint_id'' c)
          (writes_container s)) (\<lambda>serialized_writes.
     bind_result (load_pending_writes E serialized_writes) (\<lambda>pending_writes.
     bind_result (loads E (cd_metadata doc)) (\<lambda>metadata.
     Inr (Some \<lparr>tup_config = Some [(''thread_id'', thread_id),
                                  (''checkpoint_ns'', checkpoint_ns),
                                  (''checkpoint_id'', cd_checkpoint_id doc)],
                tup_checkpoint = checkpoint,
                tup_metadata = metadata,
                tup_parent_config = parent_config_of thread_id checkpoint_ns doc,
                tup_pending_writes = Some pending_writes\<rparr>)))))"

definition aget_tuple_try ::
  "env \<Rightarrow> faults \<Rightarrow> store \<Rightarrow> RunnableConfig \<Rightarrow> error + CheckpointTuple option" where
  "aget_tuple_try E faults s config =
     (case config of
        None \<Rightarrow> Inl AssertionError
      | Some configurable \<Rightarrow>
          bind_result (getitem configurable ''thread_id'') (\<lambda>thread_id.
          let checkpoint_ns = dict_get configurable ''checkpoint_ns'' [] in
          bind_result (get_checkpoint_id config) (\<lambda>checkpoint_id.
          bind_result
            (if truthy checkpoint_id then
               let parameters = [(''@thread_id'', thread_id),
                                 (''@checkpoint_ns'', checkpoint_ns),
                                 (''@checkpoint_id'', the checkpoint_id)]
               in query_items (faults QueryCheckpoints)
                    (\<lambda>c. where_eq parameters cd_thread_id ''@thread_id'' c
                       \<and> where_eq parameters cd_checkpoint_ns ''@checkpoint_ns'' c
                       \<and> where_eq parameters cd_checkpoint_id ''@checkpoint_id'' c)
                    (checkpoints_container s)
             else
               let parameters = [(''@thread_id'', thread_id),
                                 (''@checkpoint_ns'', checkpoint_ns)]
               in bind_result
                    (query_items (faults QueryCheckpoints)
                       (\<lambda>c. where_eq parameters cd_thread_id ''@thread_id'' c
                          \<and> where_eq parameters cd_checkpoint_ns ''@checkpoint_ns'' c)
                       (checkpoints_container s))
                    (\<lambda>docs. Inr (order_by_desc cd_checkpoint_id docs)))
            (\<lambda>result.
          case result of
            [] \<Rightarrow> Inr None
          | doc # _ \<Rightarrow> aget_tuple_result E faults s thread_id checkpoint_ns doc))))"

text \<open>Any exception is caught and \<^verbatim>\<open>None\<close> is returned.\<close>

definition aget_tuple :: "env \<Rightarrow> faults \<Rightarrow> store \<Rightarrow> RunnableConfig \<Rightarrow> CheckpointTuple option" where
  "aget_tuple E faults s config =
     (case aget_tuple_try E faults s config of Inl e \<Rightarrow> None | Inr r \<Rightarrow> r)"

text \<open>
  \<^verbatim>\<open>alist\<close>. The metadata of a checkpoint document is stored as one base64 string, so
  the path \<^verbatim>\<open>c.metadata.key\<close> of a metadata filter is undefined for every document.
  The generator is modelled by the list of the tuples it yields. \<^verbatim>\<open>limit\<close> is a natural
  number here.
\<close>

definition metadata_property :: "checkpoint_doc \<Rightarrow> string \<Rightarrow> pyval option" where
  "metadata_property c key = None"

definition alist_tuple :: "env \<Rightarrow> checkpoint_doc \<Rightarrow> error + CheckpointTuple" where
  "alist_tuple E doc =
     bind_result (loads_typed E (cd_type doc, cd_checkpoint doc)) (\<lambda>checkpoint.
     bind_result (loads E (cd_metadata doc)) (\<lambda>metadata.
     Inr \<lparr>tup_config = Some [(''thread_id'', cd_thread_id doc),
                             (''checkpoint_ns'', cd_checkpoint_ns doc),
                             (''checkpoint_id'', cd_checkpoint_id doc)],
           tup_checkpoint = checkpoint,
           tup_metadata = metadata,
           tup_parent_config = parent_config_of (cd_thread_id doc) (cd_checkpoint_ns doc) doc,
           tup_pending_writes = None\<rparr>))"

fun alist_yield :: "env \<Rightarrow> checkpoint_doc list \<Rightarrow> CheckpointTuple list" where
  "alist_yield E [] = []"
| "alist_yield E (doc # rest) =
     (case alist_tuple E doc of
        Inr t \<Rightarrow> t # alist_yield E rest
      | Inl e \<Rightarrow> alist_yield E rest)"

definition alist_try ::
  "env \<Rightarrow> faults \<Rightarrow> store \<Rightarrow> RunnableConfig option \<Rightarrow> (string \<times> pyval) list option \<Rightarrow>
   RunnableConfig option \<Rightarrow> nat option \<Rightarrow> error + CheckpointTuple list" where
  "alist_try E faults s config filter_arg before limit =
     (case config of
        None \<Rightarrow> Inl ValueError
      | Some None \<Rightarrow> Inl ValueError
      | Some (Some configurable) \<Rightarrow>
          bind_result (getitem configurable ''thread_id'') (\<lambda>thread_id.
          let parameters = [(''@thread_id'', thread_id),
                            (''@checkpoint_ns'', dict_get configurable ''checkpoint_ns'' [])];
              filter_items = (case filter_arg of Some f \<Rightarrow> f | None \<Rightarrow> [])
          in
          bind_result
            (case before of
               None \<Rightarrow> Inr parameters
             | Some None \<Rightarrow> Inl AssertionError
             | Some (Some before_configurable) \<Rightarrow>
                 bind_result (getitem before_configurable ''checkpoint_id'') (\<lambda>b.
                 Inr (parameters @ [(''@before_checkpoint_id'', b)]))) (\<lambda>parameters.
          bind_result
            (query_items (faults QueryCheckpoints)
               (\<lambda>c. where_eq parameters cd_thread_id ''@thread_id'' c
                  \<and> where_eq parameters cd_checkpoint_ns ''@checkpoint_ns'' c
                  \<and> list_all (\<lambda>(key, v). metadata_property c key = Some v) filter_items
                  \<and> (case before of
                        None \<Rightarrow> True
                      | Some b \<Rightarrow> where_less parameters cd_checkpoint_id ''@before_checkpoint_id'' c))
               (checkpoints_container s)) (\<lambda>docs.
          let ordered = order_by_desc cd_checkpoint_id docs;
              result = (case limit of Some n \<Rightarrow> take n ordered | None \<Rightarrow> ordered)
          in Inr (alist_yield E result)))))"

definition alist ::
  "env \<Rightarrow> faults \<Rightarrow> store \<Rightarrow> RunnableConfig option \<Rightarrow> (string \<times> pyval) list option \<Rightarrow>
   RunnableConfig option \<Rightarrow> nat option \<Rightarrow> CheckpointTuple list" where
  "alist E faults s config filter_arg before limit =
     (case alist_try E faults s config filter_arg before limit of
        Inl e \<Rightarrow> []
      | Inr tuples \<Rightarrow> tuples)"

section \<open>Writing checkpoints\<close>

text \<open>
  Operations that change the store return their result, or the exception they raise,
  together with the store they leave behind.
\<close>

definition log_msg :: "level \<Rightarrow> string \<Rightarrow> store \<Rightarrow> store" where
  "log_msg lvl msg s = s\<lparr>logger := logger s @ [(lvl, msg)]\<rparr>"

text \<open>
  The messages of a checkpoint: \<^verbatim>\<open>checkpoint['channel_values']['messages']\<close> when both
  keys are there, the empty list otherwise.
\<close>

definition checkpoint_messages :: "Checkpoint \<Rightarrow> pyval" where
  "checkpoint_messages checkpoint =
     (case channel_values checkpoint of
        Some cv \<Rightarrow>
          (case map_of cv ''messages'' of
             Some m \<Rightarrow> m
           | None \<Rightarrow> PList [])
      | None \<Rightarrow> PList [])"

text \<open>
  \<^verbatim>\<open>_update_conversation_document\<close>; \<open>now\<close> is the value of \<^verbatim>\<open>datetime.utcnow()\<close>. The
  text of a caught exception is left out of the log message.
\<close>

definition update_conversation_document ::
  "env \<Rightarrow> faults \<Rightarrow> datetime \<Rightarrow> store \<Rightarrow> RunnableConfig \<Rightarrow> Checkpoint \<Rightarrow> pyval \<Rightarrow>
   (error + unit) \<times> store" where
  "update_conversation_document E faults now s config checkpoint metadata =
     (case config of
        None \<Rightarrow> (Inl (KeyError ''configurable''), s)
      | Some configurable \<Rightarrow>
          (case getitem configurable ''thread_id'' of
             Inl e \<Rightarrow> (Inl e, s)
           | Inr thread_id \<Rightarrow>
               let user_id = map_of configurable ''user_id'' in
               if \<not> truthy user_id then
                 (Inr (), log_msg WARNING (''No user_id found in config for thread_id: '' @ thread_id) s)
               else
                 let s1 = log_msg INFO (''Updating conversation document for user_id: '' @ the user_id
                                         @ '', thread_id: '' @ thread_id) s;
                     messages = checkpoint_messages checkpoint;
                     serialized_messages = serialize_for_cosmosdb E messages;
                     conversation_doc = \<lparr>cv_id = thread_id,
                                         cv_userId = the user_id,
                                         cv_lastUpdated = isoformat E now,
                                         cv_messages = serialized_messages,
                                         cv_checkpointId = ck_id checkpoint,
                                         cv_metadata = serialize_for_cosmosdb E metadata\<rparr>
                 in case upsert_item (faults (UpsertConversation thread_id)) conversation_key
                           conversation_doc (conversations_container s1) of
                      Inr docs \<Rightarrow>
                        (Inr (),
                         log_msg INFO (''Successfully saved conversation document for user_id: '' @ the user_id)
                           (s1\<lparr>conversations_container := docs\<rparr>))
                    | Inl e \<Rightarrow> (Inl e, log_msg ERROR ''Error saving conversation document'' s1)))"

text \<open>
  \<^verbatim>\<open>aput\<close>. The argument \<^verbatim>\<open>new_versions\<close> is never read and is left out. Every
  exception of the body is replaced by a \<^verbatim>\<open>RuntimeError\<close>.
\<close>

definition aput_try ::
  "env \<Rightarrow> faults \<Rightarrow> datetime \<Rightarrow> store \<Rightarrow> RunnableConfig \<Rightarrow> Checkpoint \<Rightarrow> pyval \<Rightarrow>
   (error + RunnableConfig) \<times> store" where
  "aput_try E faults now s config checkpoint metadata =
     (case config of
        None \<Rightarrow> (Inl AssertionError, s)
      | Some configurable \<Rightarrow>
          (case getitem configurable ''thread_id'' of
             Inl e \<Rightarrow> (Inl e, s)
           | Inr thread_id \<Rightarrow>
          (case getitem configurable ''checkpoint_ns'' of
             Inl e \<Rightarrow> (Inl e, s)
           | Inr checkpoint_ns \<Rightarrow>
          let checkpoint_id = ck_id checkpoint in
          (case dumps_typed E (AnyCheckpoint checkpoint) of
             Inl e \<Rightarrow> (Inl e, s)
           | Inr (type_, serialized_checkpoint) \<Rightarrow>
          (case dumps E (AnyValue metadata) of
             Inl e \<Rightarrow> (Inl e, s)
           | Inr serialized_metadata \<Rightarrow>
          let doc = \<lparr>cd_id = thread_id @ ''_'' @ checkpoint_ns @ ''_'' @ checkpoint_id,
                     cd_parent_checkpoint_id = map_of configurable ''checkpoint_id'',
                     cd_type = type_,
                     cd_checkpoint = serialized_checkpoint,
                     cd_metadata = serialized_metadata,
                     cd_thread_id = thread_id,
                     cd_checkpoint_ns = checkpoint_ns,
                     cd_checkpoint_id = checkpoint_id\<rparr>
          in
          (case upsert_item (faults (UpsertCheckpoint (cd_id doc))) checkpoint_key doc
                  (checkpoints_container s) of
             Inl e \<Rightarrow> (Inl e, s)
           | Inr docs \<Rightarrow>
          (case update_conversation_document E faults now (s\<lparr>checkpoints_container := docs\<rparr>)
                  config checkpoint metadata of
             (Inl e, s') \<Rightarrow> (Inl e, s')
           | (Inr u, s') \<Rightarrow>
               (Inr (Some [(''thread_id'', thread_id),
                           (''checkpoint_ns'', checkpoint_ns),
                           (''checkpoint_id'', checkpoint_id)]), s'))))))))"

definition aput ::
  "env \<Rightarrow> faults \<Rightarrow> datetime \<Rightarrow> store \<Rightarrow> RunnableConfig \<Rightarrow> Checkpoint \<Rightarrow> pyval \<Rightarrow>
   (error + RunnableConfig) \<times> store" where
  "aput E faults now s config checkpoint metadata =
     (case aput_try E faults now s config checkpoint metadata of
        (Inl e, s') \<Rightarrow> (Inl RuntimeError, s')
      | (Inr c, s') \<Rightarrow> (Inr c, s'))"

text \<open>
  \<^verbatim>\<open>aput_writes\<close>. The loop over \<^verbatim>\<open>enumerate(writes)\<close> skips a write whose value cannot
  be serialised or whose upsert fails.
\<close>

definition write_doc_id :: "string \<Rightarrow> string \<Rightarrow> string \<Rightarrow> string \<Rightarrow> nat \<Rightarrow> string" where
  "write_doc_id thread_id checkpoint_ns checkpoint_id task_id idx =
     thread_id @ ''_'' @ checkpoint_ns @ ''_'' @ checkpoint_id @ ''_'' @ task_id @ ''_'' @ str_nat idx"

fun aput_writes_loop ::
  "env \<Rightarrow> faults \<Rightarrow> string \<Rightarrow> string \<Rightarrow> string \<Rightarrow> string \<Rightarrow> nat \<Rightarrow> (string \<times> pyval) list \<Rightarrow>
   write_doc list \<Rightarrow> write_doc list" where
  "aput_writes_loop E faults thread_id checkpoint_ns checkpoint_id task_id idx [] docs = docs"
| "aput_writes_loop E faults thread_id checkpoint_ns checkpoint_id task_id idx ((channel, v) # writes) docs =
     (case dumps_typed E (AnyValue v) of
        Inl e \<Rightarrow>
          aput_writes_loop E faults thread_id checkpoint_ns checkpoint_id task_id (Suc idx) writes docs
      | Inr (type_, serialized_value) \<Rightarrow>
          let doc = \<lparr>wd_id = write_doc_id thread_id checkpoint_ns checkpoint_id task_id idx,
                     wd_thread_id = thread_id,
                     wd_checkpoint_ns = checkpoint_ns,
                     wd_checkpoint_id = checkpoint_id,
                     wd_task_id = task_id,
                     wd_idx = idx,
                     wd_channel = channel,
                     wd_type = type_,
                     wd_value = serialized_value\<rparr>
          in (case upsert_item (faults (UpsertWrite (wd_id doc))) write_key doc docs of
                Inl e \<Rightarrow>
                  aput_writes_loop E faults thread_id checkpoint_ns checkpoint_id task_id (Suc idx) writes docs
              | Inr docs' \<Rightarrow>
                  aput_writes_loop E faults thread_id checkpoint_ns checkpoint_id task_id (Suc idx) writes docs'))"

definition aput_writes ::
  "env \<Rightarrow> faults \<Rightarrow> store \<Rightarrow> RunnableConfig \<Rightarrow> (string \<times> pyval) list \<Rightarrow> string \<Rightarrow>
   (error + unit) \<times> store" where
  "aput_writes E faults s config writes task_id =
     (case (case config of
              None \<Rightarrow> Inl AssertionError
            | Some configurable \<Rightarrow>
                bind_result (getitem configurable ''thread_id'') (\<lambda>thread_id.
                bind_result (getitem configurable ''checkpoint_ns'') (\<lambda>checkpoint_ns.
                bind_result (getitem configurable ''checkpoint_id'') (\<lambda>checkpoint_id.
                Inr (aput_writes_loop E faults thread_id checkpoint_ns checkpoint_id task_id 0
                       writes (writes_container s)))))) of
        Inl e \<Rightarrow> (Inl RuntimeError, s)
      | Inr docs \<Rightarrow> (Inr (), s\<lparr>writes_container := docs\<rparr>))"

section \<open>The conversation directory\<close>








text \<open>
  A loop of \<^verbatim>\<open>delete_item\<close> calls over the documents a query returned. It stops at the
  first exception; the deletions made before it stay.
\<close>

fun delete_each ::
  "('d \<Rightarrow> bool) \<Rightarrow> ('d \<Rightarrow> 'k) \<Rightarrow> 'd list \<Rightarrow> 'd list \<Rightarrow> (error + unit) \<times> 'd list" where
  "delete_each fault key [] docs = (Inr (), docs)"
| "delete_each fault key (x # xs) docs =
     (case delete_item (fault x) key (key x) docs of
        Inl e \<Rightarrow> (Inl e, docs)
      | Inr docs' \<Rightarrow> delete_each fault key xs docs')"

definition cleanup_old_conversations :: "faults \<Rightarrow> store \<Rightarrow> string \<Rightarrow> (error + unit) \<times> store" where
  "cleanup_old_conversations faults s user_id =
     (case query_items (faults QueryConversations)
             (where_eq [(''@user_id'', user_id)] cv_userId ''@user_id'')
             (conversations_container s) of
        Inl e \<Rightarrow> (Inl e, s)
      | Inr docs \<Rightarrow>
          let conversations = order_by_desc cv_lastUpdated docs in
          if length conversations \<le> 1 then (Inr (), s)
          else
            (case delete_each (\<lambda>conv. faults (DeleteConversation (cv_id conv))) conversation_key
                    (tl conversations) (conversations_container s) of
               (r, docs') \<Rightarrow> (r, s\<lparr>conversations_container := docs'\<rparr>)))"

text \<open>
  \<^verbatim>\<open>delete_conversation\<close>. The query on the writes container is issued with the query
  text alone: its parameter list is empty.
\<close>

definition delete_conversation_try :: "faults \<Rightarrow> store \<Rightarrow> string \<Rightarrow> (error + bool) \<times> store" where
  "delete_conversation_try faults s thread_id =
     (let parameters = [(''@thread_id'', thread_id)] in
      case query_items (faults QueryConversations) (where_eq parameters cv_id ''@thread_id'')
             (conversations_container s) of
        Inl e \<Rightarrow> (Inl e, s)
      | Inr conversations \<Rightarrow>
      (case (case conversations of
               [] \<Rightarrow> Inr (conversations_container s)
             | conv # _ \<Rightarrow>
                 delete_item (faults (DeleteConversation thread_id)) conversation_key
                   (cv_userId conv, thread_id) (conversations_container s)) of
        Inl e \<Rightarrow> (Inl e, s)
      | Inr convs' \<Rightarrow>
      let s1 = s\<lparr>conversations_container := convs'\<rparr> in
      (case query_items (faults QueryCheckpoints) (where_eq parameters cd_thread_id ''@thread_id'')
              (checkpoints_container s1) of
        Inl e \<Rightarrow> (Inl e, s1)
      | Inr checkpoints \<Rightarrow>
      (case delete_each (\<lambda>c. faults (DeleteCheckpoint (cd_id c))) checkpoint_key checkpoints
              (checkpoints_container s1) of
        (Inl e, cks') \<Rightarrow> (Inl e, s1\<lparr>checkpoints_container := cks'\<rparr>)
      | (Inr u, cks') \<Rightarrow>
      let s2 = s1\<lparr>checkpoints_container := cks'\<rparr> in
      (case query_items (faults QueryWrites) (where_eq [] wd_thread_id ''@thread_id'')
              (writes_container s2) of
        Inl e \<Rightarrow> (Inl e, s2)
      | Inr writes \<Rightarrow>
      (case delete_each (\<lambda>w. faults (DeleteWrite (wd_id w))) write_key writes
              (writes_container s2) of
        (Inl e, ws') \<Rightarrow> (Inl e, s2\<lparr>writes_container := ws'\<rparr>)
      | (Inr u, ws') \<Rightarrow> (Inr True, s2\<lparr>writes_container := ws'\<rparr>)))))))"

definition delete_conversation :: "faults \<Rightarrow> store \<Rightarrow> string \<Rightarrow> bool \<times> store" where
  "delete_conversation faults s thread_id =
     (case delete_conversation_try faults s thread_id of
        (Inl e, s') \<Rightarrow> (False, log_msg ERROR (''Error deleting conversation '' @ thread_id) s')
      | (Inr b, s') \<Rightarrow> (b, s'))"

section \<open>Properties of stores and results\<close>

text \<open>
  A tuple is the checkpoint \<open>cid\<close> of a thread and namespace when its config names the
  three and its payload is the decoded payload of a stored document with these fields.
\<close>

definition tuple_of_checkpoint ::
  "env \<Rightarrow> store \<Rightarrow> string \<Rightarrow> string \<Rightarrow> string \<Rightarrow> CheckpointTuple \<Rightarrow> bool" where
  "tuple_of_checkpoint E s t ns cid tup =
     (tup_config tup = Some [(''thread_id'', t), (''checkpoint_ns'', ns), (''checkpoint_id'', cid)] \<and>
      list_ex (\<lambda>doc. cd_thread_id doc = t \<and> cd_checkpoint_ns doc = ns \<and> cd_checkpoint_id doc = cid \<and>
                      loads_typed E (cd_type doc, cd_checkpoint doc) = Inr (tup_checkpoint tup))
        (checkpoints_container s))"

text \<open>The checkpoint ids stored for a thread and namespace.\<close>

definition stored_checkpoint_ids :: "store \<Rightarrow> string \<Rightarrow> string \<Rightarrow> string list" where
  "stored_checkpoint_ids s t ns =
     map cd_checkpoint_id
       (filter (\<lambda>doc. cd_thread_id doc = t \<and> cd_checkpoint_ns doc = ns) (checkpoints_container s))"

text \<open>Every stored checkpoint and pending write can be decoded.\<close>

definition is_ok :: "error + 'a \<Rightarrow> bool" where
  "is_ok r = (case r of Inr x \<Rightarrow> True | Inl e \<Rightarrow> False)"

definition store_decodable :: "env \<Rightarrow> store \<Rightarrow> bool" where
  "store_decodable E s =
     (list_all (\<lambda>doc. is_ok (loads_typed E (cd_type doc, cd_checkpoint doc)) \<and>
                       is_ok (loads E (cd_metadata doc))) (checkpoints_container s) \<and>
      list_all (\<lambda>w. is_ok (loads_typed E (wd_type w, wd_value w))) (writes_container s))"

text \<open>
  The checkpoints container as \<^verbatim>\<open>aput\<close> builds it: no two documents share partition
  key and id, and the id of a document is made of its thread, namespace and checkpoint
  id.
\<close>

definition checkpoints_wf :: "store \<Rightarrow> bool" where
  "checkpoints_wf s =
     (distinct (map checkpoint_key (checkpoints_container s)) \<and>
      list_all (\<lambda>d. cd_id d = cd_thread_id d @ ''_'' @ cd_checkpoint_ns d @ ''_'' @ cd_checkpoint_id d)
        (checkpoints_container s))"

definition writes_decodable :: "env \<Rightarrow> store \<Rightarrow> bool" where
  "writes_decodable E s =
     list_all (\<lambda>w. is_ok (loads_typed E (wd_type w, wd_value w))) (writes_container s)"

text \<open>
  The document \<^verbatim>\<open>aput_writes\<close> builds for the write at position \<open>idx\<close> of a batch.
\<close>

definition stored_write ::
  "string \<Rightarrow> string \<Rightarrow> string \<Rightarrow> string \<Rightarrow> nat \<Rightarrow> string \<Rightarrow> string \<Rightarrow> string \<Rightarrow> write_doc" where
  "stored_write t ns cid task idx channel ty serialized_value =
     \<lparr>wd_id = write_doc_id t ns cid task idx,
      wd_thread_id = t,
      wd_checkpoint_ns = ns,
      wd_checkpoint_id = cid,
      wd_task_id = task,
      wd_idx = idx,
      wd_channel = channel,
      wd_type = ty,
      wd_value = serialized_value\<rparr>"




text \<open>The conversation documents of a user.\<close>

definition conversations_of :: "store \<Rightarrow> string \<Rightarrow> conversation_doc list" where
  "conversations_of s user_id = filter (\<lambda>d. cv_userId d = user_id) (conversations_container s)"






text \<open>A string without the separator of the document ids.\<close>

definition underscore_free :: "string \<Rightarrow> bool" where
  "underscore_free s = (CHR ''_'' \<notin> set s)"

section \<open>A concrete environment\<close>

text \<open>
  A small environment on which the operations can be run: two instants with their ISO
  texts, and a serialiser that knows strings, the empty dict and two checkpoints.
\<close>

definition instant1 :: datetime where
  "instant1 = \<lparr>year = 2024, month = 1, day = 1, hour = 9, minute = 0, second = 0,
                microsecond = 0, utcoffset = None\<rparr>"

definition instant2 :: datetime where
  "instant2 = \<lparr>year = 2024, month = 1, day = 1, hour = 10, minute = 30, second = 0,
                microsecond = 0, utcoffset = None\<rparr>"

definition table_isoformat :: "datetime \<Rightarrow> string" where
  "table_isoformat dt =
     (if dt = instant1 then ''2024-01-01T09:00:00''
      else if dt = instant2 then ''2024-01-01T10:30:00''
      else ''1970-01-01T00:00:00'')"

definition table_fromisoformat :: "string \<Rightarrow> datetime option" where
  "table_fromisoformat s =
     (if s = ''2024-01-01T09:00:00'' then Some instant1
      else if s = ''2024-01-01T10:30:00'' then Some instant2
      else None)"

definition hi_message :: pyval where
  "hi_message = message_class ''HumanMessage'' (PStr ''Hi'') (PDict []) (PDict []) PNone"

definition checkpoint1 :: Checkpoint where
  "checkpoint1 = \<lparr>ck_id = ''c1'', channel_values = Some [(''messages'', PList [hi_message])]\<rparr>"

definition checkpoint0 :: Checkpoint where
  "checkpoint0 = \<lparr>ck_id = ''c0'', channel_values = Some []\<rparr>"

definition table_dumps_typed :: "any \<Rightarrow> (string \<times> bytes) option" where
  "table_dumps_typed obj =
     (case obj of
        AnyValue (PStr v) \<Rightarrow> Some (''str'', v)
      | AnyValue other \<Rightarrow> None
      | AnyCheckpoint c \<Rightarrow>
          if c = checkpoint0 then Some (''checkpoint'', ''0'')
          else if c = checkpoint1 then Some (''checkpoint'', ''1'')
          else None)"

definition table_loads_typed :: "string \<times> bytes \<Rightarrow> any option" where
  "table_loads_typed data =
     (if fst data = ''str'' then Some (AnyValue (PStr (snd data)))
      else if data = (''checkpoint'', ''0'') then Some (AnyCheckpoint checkpoint0)
      else if data = (''checkpoint'', ''1'') then Some (AnyCheckpoint checkpoint1)
      else None)"

definition table_dumps :: "any \<Rightarrow> bytes option" where
  "table_dumps obj =
     (case obj of
        AnyValue (PStr v) \<Rightarrow> Some (CHR ''s'' # v)
      | AnyValue (PDict []) \<Rightarrow> Some ''d''
      | _ \<Rightarrow> None)"

definition table_loads :: "bytes \<Rightarrow> any option" where
  "table_loads raw =
     (case raw of
        [] \<Rightarrow> None
      | c # rest \<Rightarrow>
          if c = CHR ''s'' then Some (AnyValue (PStr rest))
          else if raw = ''d'' then Some (AnyValue (PDict []))
          else None)"

definition table_env :: env where
  "table_env =
     \<lparr>isoformat = table_isoformat,
      fromisoformat = table_fromisoformat,
      serde_dumps_typed = table_dumps_typed,
      serde_loads_typed = table_loads_typed,
      serde_dumps = table_dumps,
      serde_loads = table_loads,
      b64encode = (\<lambda>raw. raw),
      b64decode = Some\<rparr>"

definition empty_store :: store where
  "empty_store =
     \<lparr>conversations_container = [], checkpoints_container = [], writes_container = [],
      logger = []\<rparr>"





text \<open>
  The store after two turns of thread \<^verbatim>\<open>t1\<close> of user \<^verbatim>\<open>alice\<close>: checkpoint \<^verbatim>\<open>c0\<close>
  without messages, then checkpoint \<^verbatim>\<open>c1\<close> with one message and parent \<^verbatim>\<open>c0\<close>.
\<close>

definition alice_config :: configurable where
  "alice_config = [(''thread_id'', ''t1''), (''checkpoint_ns'', []), (''user_id'', ''alice'')]"

definition store_after_c0 :: store where
  "store_after_c0 =
     snd (aput table_env no_faults instant1 empty_store (Some alice_config) checkpoint0 (PDict []))"

definition store_after_c1 :: store where
  "store_after_c1 =
     snd (aput table_env no_faults instant2 store_after_c0
            (Some (alice_config @ [(''checkpoint_id'', ''c0'')])) checkpoint1 (PDict []))"

text \<open>
  A batch of four writes for checkpoint \<^verbatim>\<open>c1\<close>: the second cannot be serialised, and the
  upsert of the third fails.
\<close>

definition four_writes :: "(string \<times> pyval) list" where
  "four_writes =
     [(''messages'', PStr ''a''), (''count'', PInt 1), (''messages'', PStr ''b''), (''done'', PStr ''yes'')]"

definition third_upsert_fails :: faults where
  "third_upsert_fails r = (r = UpsertWrite ''t1__c1_task_2'')"

text \<open>The store after two pending writes of one task for checkpoint \<^verbatim>\<open>c1\<close>.\<close>

definition store_with_writes :: store where
  "store_with_writes =
     snd (aput_writes table_env no_faults store_after_c1
            (Some [(''thread_id'', ''t1''), (''checkpoint_ns'', []), (''checkpoint_id'', ''c1'')])
            [(''messages'', PStr ''a''), (''messages'', PStr ''b'')] ''task'')"

section \<open>Sequences of directory operations\<close>

text \<open>
  The scenario of the one-conversation property: for one user, a sequence of upserts of
  conversation documents (\<^verbatim>\<open>_update_conversation_document\<close> with the thread id, the
  checkpoint, the metadata and the time of the call) and of calls of
  \<^verbatim>\<open>cleanup_old_conversations\<close>, run one after the other with no storage failure.
\<close>

datatype directory_op =
    UpsertFromCheckpoint string Checkpoint pyval datetime
  | ReconcileDuplicates

fun run_directory_ops :: "env \<Rightarrow> string \<Rightarrow> directory_op list \<Rightarrow> store \<Rightarrow> store" where
  "run_directory_ops E user_id [] s = s"
| "run_directory_ops E user_id (UpsertFromCheckpoint thread_id checkpoint metadata now # ops) s =
     run_directory_ops E user_id ops
       (snd (update_conversation_document E no_faults now s
               (Some [(''thread_id'', thread_id), (''user_id'', user_id)]) checkpoint metadata))"
| "run_directory_ops E user_id (ReconcileDuplicates # ops) s =
     run_directory_ops E user_id ops (snd (cleanup_old_conversations no_faults s user_id))"

fun upsert_threads :: "directory_op list \<Rightarrow> string list" where
  "upsert_threads [] = []"
| "upsert_threads (UpsertFromCheckpoint thread_id checkpoint metadata now # ops) =
     thread_id # upsert_threads ops"
| "upsert_threads (ReconcileDuplicates # ops) = upsert_threads ops"

text \<open>The documents the upserts of a sequence write for the user.\<close>

fun upsert_documents :: "env \<Rightarrow> string \<Rightarrow> directory_op list \<Rightarrow> conversation_doc list" where
  "upsert_documents E user_id [] = []"
| "upsert_documents E user_id (UpsertFromCheckpoint thread_id checkpoint metadata now # ops) =
     \<lparr>cv_id = thread_id, cv_userId = user_id, cv_lastUpdated = isoformat E now,
      cv_messages = serialize_for_cosmosdb E (checkpoint_messages checkpoint),
      cv_checkpointId = ck_id checkpoint,
      cv_metadata = serialize_for_cosmosdb E metadata\<rparr> # upsert_documents E user_id ops"
| "upsert_documents E user_id (ReconcileDuplicates # ops) = upsert_documents E user_id ops"

text \<open>
  What holds between the operations of such a sequence: the documents of the user have
  distinct keys, each was written by an upsert so far, and one of them is as recent as
  every document written so far.
\<close>

definition directory_inv :: "store \<Rightarrow> string \<Rightarrow> conversation_doc list \<Rightarrow> bool" where
  "directory_inv s user_id written =
     (distinct (map conversation_key (conversations_of s user_id)) \<and>
      list_all (\<lambda>d. d \<in> set written) (conversations_of s user_id) \<and>
      (written = [] \<or>
       list_ex (\<lambda>d. list_all (\<lambda>w. cv_lastUpdated w \<le> cv_lastUpdated d) written)
         (conversations_of s user_id)))"

definition three_threads :: "directory_op list" where
  "three_threads =
     [UpsertFromCheckpoint ''t1'' checkpoint0 (PDict []) instant1,
      ReconcileDuplicates,
      UpsertFromCheckpoint ''t2'' checkpoint1 (PDict []) instant2,
      UpsertFromCheckpoint ''t3'' checkpoint0 (PDict []) instant1]"


section \<open>The object codec\<close>

lemma message_roundtrip:
  "cls \<in> set message_class_names \<Longrightarrow>
   deserialize_from_cosmosdb E (serialize_for_cosmosdb E (message_class cls c k r i)) =
   message_class cls c k r i"
  by (auto simp: message_class_def message_class_names_def dict_get_def)

lemma is_message_roundtrip:
  assumes "is_message m"
  shows "deserialize_from_cosmosdb E (serialize_for_cosmosdb E m) = m"
proof (cases m)
  case (PObject cls attrs)
  with assms have "cls \<in> set message_class_names"
    and "m = message_class cls (dict_get attrs ''content'' PNone)
               (dict_get attrs ''additional_kwargs'' PNone)
               (dict_get attrs ''response_metadata'' PNone)
               (dict_get attrs ''id'' PNone)"
    by (simp_all add: is_message_def)
  then show ?thesis by (metis message_roundtrip)
qed (use assms in \<open>simp_all add: is_message_def\<close>)

lemma tree_roundtrip:
  "recognized x \<Longrightarrow> untagged x \<Longrightarrow>
   deserialize_from_cosmosdb E (serialize_for_cosmosdb E x) = x"
proof (induction x)
  case (PDict kvs)
  have tag: "map_of (map (\<lambda>(k, v). (k, serialize_for_cosmosdb E v)) kvs) ''_type'' = None"
    using PDict.prems(2) by (auto simp add: map_of_eq_None_iff image_iff split_beta)
  have "((\<lambda>(k, v). (k, deserialize_from_cosmosdb E v)) \<circ>
         (\<lambda>(k, v). (k, serialize_for_cosmosdb E v))) p = p"
    if "p \<in> set kvs" for p
  proof -
    obtain k v where p: "p = (k, v)" by (cases p)
    have "recognized v" "untagged v" using that PDict.prems p by auto
    with PDict.IH[of p v] that p show ?thesis by simp
  qed
  then have "map (\<lambda>(k, v). (k, deserialize_from_cosmosdb E v))
               (map (\<lambda>(k, v). (k, serialize_for_cosmosdb E v)) kvs) = kvs"
    by (simp add: map_idI)
  with tag show ?case by simp
next
  case (PList xs)
  then show ?case by (simp add: map_idI)
next
  case (PObject cls attrs)
  then have "is_message (PObject cls attrs)" by simp
  then show ?case by (rule is_message_roundtrip)
qed simp_all

text \<open>
  Claim C1, as stated, fails: a plain dict that has the key \<^verbatim>\<open>_type\<close> is a tree of
  recognised constructs, the encoder passes it through, and the decoder takes the key for
  its own type tag and drops it.
\<close>

theorem codec_roundtrip_counterexample:
  "recognized (PDict [(''_type'', PStr ''note'')]) \<and>
   deserialize_from_cosmosdb table_env
     (serialize_for_cosmosdb table_env (PDict [(''_type'', PStr ''note'')]))
   \<noteq> PDict [(''_type'', PStr ''note'')]"
  by (simp add: message_class_names_def)

text \<open>
  Claim C1, amended. Decoding the encoding of a supported message (\<^verbatim>\<open>HumanMessage\<close>,
  \<^verbatim>\<open>AIMessage\<close>, \<^verbatim>\<open>SystemMessage\<close>) gives the message back, with its content, type,
  \<^verbatim>\<open>additional_kwargs\<close>, \<^verbatim>\<open>response_metadata\<close> and id. Decoding the encoding of a tree of
  messages, dicts, lists, strings, numbers, booleans and \<^verbatim>\<open>None\<close> gives the tree back
  when no dict of the tree has the key \<^verbatim>\<open>_type\<close> and no string of the tree passes the
  decoder's test for an ISO timestamp.
\<close>

theorem codec_roundtrip:
  "(is_message m \<longrightarrow> deserialize_from_cosmosdb E (serialize_for_cosmosdb E m) = m) \<and>
   (recognized x \<and> untagged x \<longrightarrow>
      deserialize_from_cosmosdb E (serialize_for_cosmosdb E x) = x)"
  using is_message_roundtrip tree_roundtrip by blast

theorem codec_roundtrip_witness:
  "is_message hi_message \<and>
   deserialize_from_cosmosdb table_env (serialize_for_cosmosdb table_env hi_message) = hi_message \<and>
   recognized (PDict [(''turn'', PInt 2), (''history'', PList [hi_message, PStr ''ok'', PNone])]) \<and>
   untagged (PDict [(''turn'', PInt 2), (''history'', PList [hi_message, PStr ''ok'', PNone])]) \<and>
   deserialize_from_cosmosdb table_env
     (serialize_for_cosmosdb table_env
        (PDict [(''turn'', PInt 2), (''history'', PList [hi_message, PStr ''ok'', PNone])])) =
   PDict [(''turn'', PInt 2), (''history'', PList [hi_message, PStr ''ok'', PNone])]"
proof -
  have m: "is_message hi_message"
    by (simp add: is_message_def hi_message_def message_class_def message_class_names_def
        dict_get_def)
  have r: "recognized (PDict [(''turn'', PInt 2), (''history'', PList [hi_message, PStr ''ok'', PNone])])"
    using m by (simp add: hi_message_def message_class_def)
  have u: "untagged (PDict [(''turn'', PInt 2), (''history'', PList [hi_message, PStr ''ok'', PNone])])"
    by (simp add: hi_message_def message_class_def looks_like_iso_def)
  show ?thesis
    using m r u
      codec_roundtrip [of hi_message table_env
        "PDict [(''turn'', PInt 2), (''history'', PList [hi_message, PStr ''ok'', PNone])]"]
    by blast
qed


section \<open>Basic facts\<close>

lemma bind_result_simps [simp]:
  "bind_result (Inl e) f = Inl e"
  "bind_result (Inr x) f = f x"
  by (simp_all add: bind_result_def)

lemma where_eq_Cons [simp]:
  "where_eq ((n, v) # ps) field name c = (if n = name then field c = v else where_eq ps field name c)"
  "where_eq [] field name c = False"
  by (auto simp: where_eq_def)

lemma filter_eq_ConsD': "filter P xs = y # ys \<Longrightarrow> y \<in> set xs \<and> P y"
proof -
  assume "filter P xs = y # ys"
  then have "y \<in> set (filter P xs)" by simp
  then show ?thesis by simp
qed

lemma order_by_desc_ConsD:
  assumes "order_by_desc f xs = y # ys"
  shows "y \<in> set xs \<and> (\<forall>x \<in> set xs. f x \<le> f y)"
proof -
  have l: "sort_key f xs = rev ys @ [y]"
    using assms unfolding order_by_desc_def by (metis rev.simps(2) rev_rev_ident)
  have "sorted (map f (sort_key f xs))" by simp
  then have "sorted (map f (rev ys) @ [f y])" using l by simp
  then have "\<forall>x \<in> set (rev ys). f x \<le> f y" by (auto simp: sorted_append)
  moreover have "set xs = set (rev ys @ [y])" using l by (metis set_sort)
  ultimately show ?thesis by auto
qed

lemma order_by_desc_empty [simp]: "order_by_desc f [] = []"
  by (simp add: order_by_desc_def)

lemma order_by_desc_Nil [simp]: "order_by_desc f xs = [] \<longleftrightarrow> xs = []"
  unfolding order_by_desc_def by (metis length_0_conv length_rev length_sort)

section \<open>Reading a checkpoint\<close>

lemma aget_tuple_try_eq:
  assumes "map_of cfg ''thread_id'' = Some t"
  shows "aget_tuple_try E faults s (Some cfg) =
    (if faults QueryCheckpoints then Inl CosmosHttpResponseError
     else case (if truthy (map_of cfg ''checkpoint_id'') then
                  filter (\<lambda>c. cd_thread_id c = t \<and> cd_checkpoint_ns c = dict_get cfg ''checkpoint_ns'' [] \<and>
                               cd_checkpoint_id c = the (map_of cfg ''checkpoint_id''))
                    (checkpoints_container s)
                else order_by_desc cd_checkpoint_id
                  (filter (\<lambda>c. cd_thread_id c = t \<and> cd_checkpoint_ns c = dict_get cfg ''checkpoint_ns'' [])
                    (checkpoints_container s))) of
            [] \<Rightarrow> Inr None
          | doc # rest \<Rightarrow> aget_tuple_result E faults s t (dict_get cfg ''checkpoint_ns'' []) doc)"
  using assms
  by (simp add: aget_tuple_try_def getitem_def get_checkpoint_id_def Let_def query_items_def)

lemma aget_tuple_try_no_thread:
  "map_of cfg ''thread_id'' = None \<Longrightarrow> aget_tuple_try E faults s (Some cfg) = Inl (KeyError ''thread_id'')"
  "aget_tuple_try E faults s None = Inl AssertionError"
  by (simp_all add: aget_tuple_try_def getitem_def)

lemma aget_tuple_result_eq:
  "aget_tuple_result E faults s t ns doc =
     bind_result (loads_typed E (cd_type doc, cd_checkpoint doc)) (\<lambda>checkpoint.
     if faults QueryWrites then Inl CosmosHttpResponseError else
     bind_result (load_pending_writes E
        (filter (\<lambda>w. wd_thread_id w = t \<and> wd_checkpoint_ns w = ns \<and> wd_checkpoint_id w = cd_checkpoint_id doc)
           (writes_container s))) (\<lambda>pending_writes.
     bind_result (loads E (cd_metadata doc)) (\<lambda>metadata.
     Inr (Some \<lparr>tup_config = Some [(''thread_id'', t), (''checkpoint_ns'', ns),
                                  (''checkpoint_id'', cd_checkpoint_id doc)],
                tup_checkpoint = checkpoint,
                tup_metadata = metadata,
                tup_parent_config = parent_config_of t ns doc,
                tup_pending_writes = Some pending_writes\<rparr>))))"
  by (simp add: aget_tuple_result_def Let_def query_items_def)

lemma aget_tuple_result_fault:
  "faults QueryWrites \<Longrightarrow> aget_tuple_result E faults s t ns doc \<noteq> Inr r"
  by (cases "loads_typed E (cd_type doc, cd_checkpoint doc)") (simp_all add: aget_tuple_result_eq)

lemma aget_tuple_result_not_None:
  "aget_tuple_result E faults s t ns doc \<noteq> Inr None"
  by (auto simp: aget_tuple_result_eq bind_result_def split: sum.splits)

lemma aget_tuple_fault:
  assumes "faults QueryCheckpoints \<or> faults QueryWrites"
  shows "aget_tuple E faults s config = None"
proof (cases config)
  case None
  then show ?thesis by (simp add: aget_tuple_def aget_tuple_try_no_thread)
next
  case (Some cfg)
  show ?thesis
  proof (cases "map_of cfg ''thread_id''")
    case None
    then show ?thesis using Some by (simp add: aget_tuple_def aget_tuple_try_no_thread)
  next
    case (Some t)
    show ?thesis
    proof (cases "faults QueryCheckpoints")
      case True
      then show ?thesis using \<open>config = Some cfg\<close> Some
        by (simp add: aget_tuple_def aget_tuple_try_eq)
    next
      case False
      with assms have w: "faults QueryWrites" by simp
      have "aget_tuple_result E faults s t ns doc \<noteq> Inr r" for ns doc r
        using w by (rule aget_tuple_result_fault)
      then show ?thesis using \<open>config = Some cfg\<close> Some
        by (auto simp: aget_tuple_def aget_tuple_try_eq split: list.splits sum.splits)
    qed
  qed
qed


lemma is_okD: "is_ok r \<Longrightarrow> \<exists>x. r = Inr x"
  by (cases r) (simp_all add: is_ok_def)

lemma load_pending_writes_ok:
  "list_all (\<lambda>w. is_ok (loads_typed E (wd_type w, wd_value w))) ws \<Longrightarrow>
   \<exists>pw. load_pending_writes E ws = Inr pw"
  by (induction ws) (auto simp: is_ok_def split: sum.splits)

lemma aget_tuple_result_ok:
  assumes "store_decodable E s" and "doc \<in> set (checkpoints_container s)"
    and "\<not> faults QueryWrites"
  shows "\<exists>tup. aget_tuple_result E faults s t ns doc = Inr (Some tup)"
proof -
  from assms(1,2) have "is_ok (loads_typed E (cd_type doc, cd_checkpoint doc))"
    and "is_ok (loads E (cd_metadata doc))"
    by (auto simp: store_decodable_def list_all_iff)
  then obtain c m where c: "loads_typed E (cd_type doc, cd_checkpoint doc) = Inr c"
    and m: "loads E (cd_metadata doc) = Inr m"
    by (auto dest!: is_okD)
  have "list_all (\<lambda>w. is_ok (loads_typed E (wd_type w, wd_value w)))
          (filter (\<lambda>w. wd_thread_id w = t \<and> wd_checkpoint_ns w = ns \<and> wd_checkpoint_id w = cd_checkpoint_id doc)
             (writes_container s))"
    using assms(1) by (auto simp: store_decodable_def list_all_iff)
  from load_pending_writes_ok[OF this] obtain pw where
    "load_pending_writes E
          (filter (\<lambda>w. wd_thread_id w = t \<and> wd_checkpoint_ns w = ns \<and> wd_checkpoint_id w = cd_checkpoint_id doc)
             (writes_container s)) = Inr pw" by blast
  with c m assms(3) show ?thesis by (simp add: aget_tuple_result_eq)
qed

lemma aget_tuple_result_SomeD:
  assumes "aget_tuple_result E faults s t ns doc = Inr (Some tup)"
  shows "tup_config tup = Some [(''thread_id'', t), (''checkpoint_ns'', ns), (''checkpoint_id'', cd_checkpoint_id doc)]"
    and "loads_typed E (cd_type doc, cd_checkpoint doc) = Inr (tup_checkpoint tup)"
    and "tup_parent_config tup = parent_config_of t ns doc"
  using assms
  by (auto simp: aget_tuple_result_eq bind_result_def split: sum.splits if_splits)

lemma tuple_of_checkpointI:
  assumes "aget_tuple_result E faults s t ns doc = Inr (Some tup)"
    and "doc \<in> set (checkpoints_container s)"
    and "cd_thread_id doc = t" and "cd_checkpoint_ns doc = ns"
  shows "tuple_of_checkpoint E s t ns (cd_checkpoint_id doc) tup"
  using assms aget_tuple_result_SomeD[OF assms(1)]
  by (auto simp: tuple_of_checkpoint_def list_ex_iff)

lemma aget_tuple_exact:
  assumes t: "map_of cfg ''thread_id'' = Some t" and ns: "ns = dict_get cfg ''checkpoint_ns'' []"
    and cid: "map_of cfg ''checkpoint_id'' = Some cid" "cid \<noteq> []"
  shows "aget_tuple E faults s (Some cfg) = Some tup \<Longrightarrow> tuple_of_checkpoint E s t ns cid tup"
    and "cid \<notin> set (stored_checkpoint_ids s t ns) \<Longrightarrow> aget_tuple E faults s (Some cfg) = None"
    and "cid \<in> set (stored_checkpoint_ids s t ns) \<Longrightarrow> \<not> faults QueryCheckpoints \<Longrightarrow>
         \<not> faults QueryWrites \<Longrightarrow> store_decodable E s \<Longrightarrow> aget_tuple E faults s (Some cfg) \<noteq> None"
proof -
  let ?sel = "filter (\<lambda>c. cd_thread_id c = t \<and> cd_checkpoint_ns c = ns \<and> cd_checkpoint_id c = cid)
                (checkpoints_container s)"
  have eq: "aget_tuple_try E faults s (Some cfg) =
    (if faults QueryCheckpoints then Inl CosmosHttpResponseError
     else case ?sel of [] \<Rightarrow> Inr None | doc # rest \<Rightarrow> aget_tuple_result E faults s t ns doc)"
    unfolding ns using cid by (simp add: aget_tuple_try_eq[OF t] truthy_def)
  {
    assume a: "aget_tuple E faults s (Some cfg) = Some tup"
    then obtain doc rest where sel: "?sel = doc # rest"
      and r: "aget_tuple_result E faults s t ns doc = Inr (Some tup)"
      by (auto simp: aget_tuple_def eq split: if_splits list.splits sum.splits)
    from filter_eq_ConsD'[OF sel] have "doc \<in> set (checkpoints_container s)"
      "cd_thread_id doc = t" "cd_checkpoint_ns doc = ns" "cd_checkpoint_id doc = cid" by auto
    with tuple_of_checkpointI[OF r] show "tuple_of_checkpoint E s t ns cid tup" by auto
  }
  {
    assume "cid \<notin> set (stored_checkpoint_ids s t ns)"
    then have "?sel = []" by (auto simp: stored_checkpoint_ids_def filter_empty_conv)
    then show "aget_tuple E faults s (Some cfg) = None" by (simp add: aget_tuple_def eq)
  }
  {
    assume "cid \<in> set (stored_checkpoint_ids s t ns)" and nf: "\<not> faults QueryCheckpoints" "\<not> faults QueryWrites"
      and dec: "store_decodable E s"
    then have "?sel \<noteq> []" by (auto simp: stored_checkpoint_ids_def filter_empty_conv)
    then obtain doc rest where sel: "?sel = doc # rest" by (cases ?sel) auto
    from filter_eq_ConsD'[OF sel] have "doc \<in> set (checkpoints_container s)" by simp
    from aget_tuple_result_ok[where faults=faults, OF dec this nf(2)] obtain tup where
      "aget_tuple_result E faults s t ns doc = Inr (Some tup)" by blast
    then show "aget_tuple E faults s (Some cfg) \<noteq> None" using nf sel by (simp add: aget_tuple_def eq)
  }
qed

lemma aget_tuple_latest:
  assumes t: "map_of cfg ''thread_id'' = Some t" and ns: "ns = dict_get cfg ''checkpoint_ns'' []"
    and cid: "\<not> truthy (map_of cfg ''checkpoint_id'')"
  shows "aget_tuple E faults s (Some cfg) = Some tup \<Longrightarrow>
           \<exists>cid. tuple_of_checkpoint E s t ns cid tup \<and> (\<forall>c \<in> set (stored_checkpoint_ids s t ns). c \<le> cid)"
    and "stored_checkpoint_ids s t ns = [] \<Longrightarrow> aget_tuple E faults s (Some cfg) = None"
    and "stored_checkpoint_ids s t ns \<noteq> [] \<Longrightarrow> \<not> faults QueryCheckpoints \<Longrightarrow>
         \<not> faults QueryWrites \<Longrightarrow> store_decodable E s \<Longrightarrow> aget_tuple E faults s (Some cfg) \<noteq> None"
proof -
  let ?m = "filter (\<lambda>c. cd_thread_id c = t \<and> cd_checkpoint_ns c = ns) (checkpoints_container s)"
  let ?sel = "order_by_desc cd_checkpoint_id ?m"
  have eq: "aget_tuple_try E faults s (Some cfg) =
    (if faults QueryCheckpoints then Inl CosmosHttpResponseError
     else case ?sel of [] \<Rightarrow> Inr None | doc # rest \<Rightarrow> aget_tuple_result E faults s t ns doc)"
    unfolding ns using cid by (simp add: aget_tuple_try_eq[OF t])
  {
    assume a: "aget_tuple E faults s (Some cfg) = Some tup"
    then obtain doc rest where sel: "?sel = doc # rest"
      and r: "aget_tuple_result E faults s t ns doc = Inr (Some tup)"
      by (auto simp: aget_tuple_def eq split: if_splits list.splits sum.splits)
    from order_by_desc_ConsD[OF sel] have d: "doc \<in> set ?m"
      and mx: "\<forall>x \<in> set ?m. cd_checkpoint_id x \<le> cd_checkpoint_id doc" by auto
    from d have "doc \<in> set (checkpoints_container s)" "cd_thread_id doc = t" "cd_checkpoint_ns doc = ns"
      by auto
    with tuple_of_checkpointI[OF r] have "tuple_of_checkpoint E s t ns (cd_checkpoint_id doc) tup" by auto
    moreover have "\<forall>c \<in> set (stored_checkpoint_ids s t ns). c \<le> cd_checkpoint_id doc"
      using mx by (auto simp: stored_checkpoint_ids_def)
    ultimately show "\<exists>cid. tuple_of_checkpoint E s t ns cid tup \<and> (\<forall>c \<in> set (stored_checkpoint_ids s t ns). c \<le> cid)"
      by blast
  }
  {
    assume "stored_checkpoint_ids s t ns = []"
    then have "?sel = []" by (simp add: stored_checkpoint_ids_def)
    then show "aget_tuple E faults s (Some cfg) = None" by (simp add: aget_tuple_def eq)
  }
  {
    assume "stored_checkpoint_ids s t ns \<noteq> []" and nf: "\<not> faults QueryCheckpoints" "\<not> faults QueryWrites"
      and dec: "store_decodable E s"
    then have "?sel \<noteq> []" by (simp add: stored_checkpoint_ids_def)
    then obtain doc rest where sel: "?sel = doc # rest" by (cases ?sel) auto
    from order_by_desc_ConsD[OF sel] have "doc \<in> set (checkpoints_container s)" by simp
    from aget_tuple_result_ok[where faults=faults, OF dec this nf(2)] obtain tup where
      "aget_tuple_result E faults s t ns doc = Inr (Some tup)" by blast
    then show "aget_tuple E faults s (Some cfg) \<noteq> None" using nf sel by (simp add: aget_tuple_def eq)
  }
qed


lemmas table_env_simps =
  table_env_def table_isoformat_def table_fromisoformat_def table_dumps_typed_def
  table_loads_typed_def table_dumps_def table_loads_def instant1_def instant2_def
  checkpoint0_def checkpoint1_def dumps_typed_def loads_typed_def dumps_def loads_def

lemma upsert_item_simps [simp]:
  "upsert_item False key d docs = Inr (upsert_docs key d docs)"
  "upsert_item True key d docs = Inl CosmosHttpResponseError"
  by (simp_all add: upsert_item_def)

lemma store_after_c0_eq:
  "store_after_c0 =
     \<lparr>conversations_container =
        [\<lparr>cv_id = ''t1'', cv_userId = ''alice'', cv_lastUpdated = ''2024-01-01T09:00:00'',
          cv_messages = PList [], cv_checkpointId = ''c0'', cv_metadata = PDict []\<rparr>],
      checkpoints_container =
        [\<lparr>cd_id = ''t1__c0'', cd_parent_checkpoint_id = None, cd_type = ''checkpoint'',
          cd_checkpoint = ''0'', cd_metadata = ''d'', cd_thread_id = ''t1'',
          cd_checkpoint_ns = [], cd_checkpoint_id = ''c0''\<rparr>],
      writes_container = [],
      logger = [(INFO, ''Updating conversation document for user_id: alice, thread_id: t1''),
                (INFO, ''Successfully saved conversation document for user_id: alice'')]\<rparr>"
  by (simp add: store_after_c0_def aput_def aput_try_def update_conversation_document_def
      alice_config_def empty_store_def getitem_def no_faults_def truthy_def log_msg_def
      Let_def table_env_simps checkpoint_messages_def)

lemma store_after_c1_eq:
  "store_after_c1 =
     \<lparr>conversations_container =
        [\<lparr>cv_id = ''t1'', cv_userId = ''alice'', cv_lastUpdated = ''2024-01-01T10:30:00'',
          cv_messages = PList [PDict [(''_type'', PStr ''HumanMessage''), (''content'', PStr ''Hi''),
                                      (''type'', PStr ''human''), (''additional_kwargs'', PDict []),
                                      (''response_metadata'', PDict []), (''id'', PNone)]],
          cv_checkpointId = ''c1'', cv_metadata = PDict []\<rparr>],
      checkpoints_container =
        [\<lparr>cd_id = ''t1__c0'', cd_parent_checkpoint_id = None, cd_type = ''checkpoint'',
          cd_checkpoint = ''0'', cd_metadata = ''d'', cd_thread_id = ''t1'',
          cd_checkpoint_ns = [], cd_checkpoint_id = ''c0''\<rparr>,
         \<lparr>cd_id = ''t1__c1'', cd_parent_checkpoint_id = Some ''c0'', cd_type = ''checkpoint'',
          cd_checkpoint = ''1'', cd_metadata = ''d'', cd_thread_id = ''t1'',
          cd_checkpoint_ns = [], cd_checkpoint_id = ''c1''\<rparr>],
      writes_container = [],
      logger = [(INFO, ''Updating conversation document for user_id: alice, thread_id: t1''),
                (INFO, ''Successfully saved conversation document for user_id: alice''),
                (INFO, ''Updating conversation document for user_id: alice, thread_id: t1''),
                (INFO, ''Successfully saved conversation document for user_id: alice'')]\<rparr>"
  by (simp add: store_after_c1_def store_after_c0_eq aput_def aput_try_def
      update_conversation_document_def alice_config_def getitem_def no_faults_def truthy_def
      log_msg_def Let_def table_env_simps hi_message_def message_class_def message_type_def
      dict_get_def checkpoint_key_def conversation_key_def checkpoint_messages_def)


text \<open>
  Claim C2. Let the config name a thread \<open>t\<close>, and let \<open>ns\<close> be its namespace (the empty
  string when the config has none). A storage error in either query makes \<^verbatim>\<open>aget_tuple\<close>
  return \<^verbatim>\<open>None\<close>. When the config supplies a checkpoint id (a non-empty string), a
  returned tuple is the checkpoint with that id; \<^verbatim>\<open>None\<close> is returned when no checkpoint
  with that id is stored, and a tuple is returned when one is stored, no request fails
  and the stored documents can be decoded. When the config supplies none, a returned
  tuple is a stored checkpoint of \<open>(t, ns)\<close> whose id is the greatest of those stored;
  \<^verbatim>\<open>None\<close> is returned when none is stored, and a tuple is returned when one is. The
  result is an option: nothing is raised.
\<close>

theorem aget_tuple_lookup:
  assumes "map_of cfg ''thread_id'' = Some t" and "ns = dict_get cfg ''checkpoint_ns'' []"
  shows
    "(faults QueryCheckpoints \<or> faults QueryWrites \<longrightarrow> aget_tuple E faults s (Some cfg) = None) \<and>
     (\<forall>cid. map_of cfg ''checkpoint_id'' = Some cid \<and> cid \<noteq> [] \<longrightarrow>
        (\<forall>tup. aget_tuple E faults s (Some cfg) = Some tup \<longrightarrow> tuple_of_checkpoint E s t ns cid tup) \<and>
        (cid \<notin> set (stored_checkpoint_ids s t ns) \<longrightarrow> aget_tuple E faults s (Some cfg) = None) \<and>
        (cid \<in> set (stored_checkpoint_ids s t ns) \<and> \<not> faults QueryCheckpoints \<and>
         \<not> faults QueryWrites \<and> store_decodable E s \<longrightarrow>
           aget_tuple E faults s (Some cfg) \<noteq> None)) \<and>
     (\<not> truthy (map_of cfg ''checkpoint_id'') \<longrightarrow>
        (\<forall>tup. aget_tuple E faults s (Some cfg) = Some tup \<longrightarrow>
           (\<exists>cid. tuple_of_checkpoint E s t ns cid tup \<and>
                  (\<forall>c \<in> set (stored_checkpoint_ids s t ns). c \<le> cid))) \<and>
        (stored_checkpoint_ids s t ns = [] \<longrightarrow> aget_tuple E faults s (Some cfg) = None) \<and>
        (stored_checkpoint_ids s t ns \<noteq> [] \<and> \<not> faults QueryCheckpoints \<and>
         \<not> faults QueryWrites \<and> store_decodable E s \<longrightarrow>
           aget_tuple E faults s (Some cfg) \<noteq> None))"
proof (intro conjI allI impI)
  show "aget_tuple E faults s (Some cfg) = None" if "faults QueryCheckpoints \<or> faults QueryWrites"
    using that by (rule aget_tuple_fault)
next
  fix cid tup
  assume "map_of cfg ''checkpoint_id'' = Some cid \<and> cid \<noteq> []"
    and "aget_tuple E faults s (Some cfg) = Some tup"
  then show "tuple_of_checkpoint E s t ns cid tup"
    using aget_tuple_exact(1)[OF assms] by blast
next
  fix cid
  assume "map_of cfg ''checkpoint_id'' = Some cid \<and> cid \<noteq> []"
    and "cid \<notin> set (stored_checkpoint_ids s t ns)"
  then show "aget_tuple E faults s (Some cfg) = None"
    using aget_tuple_exact(2)[OF assms] by blast
next
  fix cid
  assume "map_of cfg ''checkpoint_id'' = Some cid \<and> cid \<noteq> []"
    and "cid \<in> set (stored_checkpoint_ids s t ns) \<and> \<not> faults QueryCheckpoints \<and>
         \<not> faults QueryWrites \<and> store_decodable E s"
  then show "aget_tuple E faults s (Some cfg) \<noteq> None"
    using aget_tuple_exact(3)[OF assms] by blast
next
  fix tup
  assume "\<not> truthy (map_of cfg ''checkpoint_id'')"
    and "aget_tuple E faults s (Some cfg) = Some tup"
  then show "\<exists>cid. tuple_of_checkpoint E s t ns cid tup \<and>
                  (\<forall>c \<in> set (stored_checkpoint_ids s t ns). c \<le> cid)"
    using aget_tuple_latest(1)[OF assms] by blast
next
  assume "\<not> truthy (map_of cfg ''checkpoint_id'')" and "stored_checkpoint_ids s t ns = []"
  then show "aget_tuple E faults s (Some cfg) = None"
    using aget_tuple_latest(2)[OF assms] by blast
next
  assume "\<not> truthy (map_of cfg ''checkpoint_id'')"
    and "stored_checkpoint_ids s t ns \<noteq> [] \<and> \<not> faults QueryCheckpoints \<and>
         \<not> faults QueryWrites \<and> store_decodable E s"
  then show "aget_tuple E faults s (Some cfg) \<noteq> None"
    using aget_tuple_latest(3)[OF assms] by blast
qed

lemma store_after_c1_decodable: "store_decodable table_env store_after_c1"
  by (simp add: store_decodable_def store_after_c1_eq is_ok_def table_env_simps)

lemma store_after_c1_ids: "stored_checkpoint_ids store_after_c1 ''t1'' [] = [''c0'', ''c1'']"
  by (simp add: stored_checkpoint_ids_def store_after_c1_eq)

theorem aget_tuple_lookup_witness:
  "map_of (alice_config @ [(''checkpoint_id'', ''c0'')]) ''thread_id'' = Some ''t1'' \<and>
   (\<exists>tup. aget_tuple table_env no_faults store_after_c1
             (Some (alice_config @ [(''checkpoint_id'', ''c0'')])) = Some tup \<and>
          tuple_of_checkpoint table_env store_after_c1 ''t1'' [] ''c0'' tup) \<and>
   (\<exists>tup cid. aget_tuple table_env no_faults store_after_c1 (Some alice_config) = Some tup \<and>
          tuple_of_checkpoint table_env store_after_c1 ''t1'' [] cid tup \<and> ''c1'' \<le> cid)"
proof -
  let ?cfg = "alice_config @ [(''checkpoint_id'', ''c0'')]"
  have t: "map_of ?cfg ''thread_id'' = Some ''t1''" by (simp add: alice_config_def)
  have ns: "[] = dict_get ?cfg ''checkpoint_ns'' []" by (simp add: alice_config_def dict_get_def)
  have cid: "map_of ?cfg ''checkpoint_id'' = Some ''c0'' \<and> ''c0'' \<noteq> []"
    by (simp add: alice_config_def)
  have t': "map_of alice_config ''thread_id'' = Some ''t1''" by (simp add: alice_config_def)
  have ns': "[] = dict_get alice_config ''checkpoint_ns'' []"
    by (simp add: alice_config_def dict_get_def)
  have none: "\<not> truthy (map_of alice_config ''checkpoint_id'')"
    by (simp add: alice_config_def truthy_def)
  have nf: "\<not> no_faults QueryCheckpoints" "\<not> no_faults QueryWrites" by (simp_all add: no_faults_def)
  note A = aget_tuple_lookup[OF t ns, of no_faults table_env store_after_c1]
  note B = aget_tuple_lookup[OF t' ns', of no_faults table_env store_after_c1]
  from A cid nf store_after_c1_decodable store_after_c1_ids
  have "aget_tuple table_env no_faults store_after_c1 (Some ?cfg) \<noteq> None" by simp
  then obtain tup where 1: "aget_tuple table_env no_faults store_after_c1 (Some ?cfg) = Some tup"
    by blast
  with A cid have 2: "tuple_of_checkpoint table_env store_after_c1 ''t1'' [] ''c0'' tup" by blast
  from B none nf store_after_c1_decodable store_after_c1_ids
  have "aget_tuple table_env no_faults store_after_c1 (Some alice_config) \<noteq> None" by simp
  then obtain tup' where 3: "aget_tuple table_env no_faults store_after_c1 (Some alice_config) = Some tup'"
    by blast
  with B none obtain cid' where 4: "tuple_of_checkpoint table_env store_after_c1 ''t1'' [] cid' tup'"
    and "\<forall>c \<in> set (stored_checkpoint_ids store_after_c1 ''t1'' []). c \<le> cid'" by blast
  then have 5: "''c1'' \<le> cid'" by (simp add: store_after_c1_ids)
  from t 1 2 3 4 5 show ?thesis by blast
qed


section \<open>Writing a checkpoint\<close>

lemma aput_try_eq:
  assumes "map_of cfg ''thread_id'' = Some t" and "map_of cfg ''checkpoint_ns'' = Some ns"
    and "dumps_typed E (AnyCheckpoint c) = Inr (ty, ser)" and "dumps E (AnyValue md) = Inr smd"
  shows "aput_try E faults now s (Some cfg) c md =
    (if faults (UpsertCheckpoint (t @ ''_'' @ ns @ ''_'' @ ck_id c)) then (Inl CosmosHttpResponseError, s)
     else case update_conversation_document E faults now
                 (s\<lparr>checkpoints_container :=
                      upsert_docs checkpoint_key
                        \<lparr>cd_id = t @ ''_'' @ ns @ ''_'' @ ck_id c,
                          cd_parent_checkpoint_id = map_of cfg ''checkpoint_id'',
                          cd_type = ty, cd_checkpoint = ser, cd_metadata = smd,
                          cd_thread_id = t, cd_checkpoint_ns = ns, cd_checkpoint_id = ck_id c\<rparr>
                        (checkpoints_container s)\<rparr>) (Some cfg) c md of
            (Inl e, s') \<Rightarrow> (Inl e, s')
          | (Inr u, s') \<Rightarrow> (Inr (Some [(''thread_id'', t), (''checkpoint_ns'', ns),
                                        (''checkpoint_id'', ck_id c)]), s'))"
  using assms by (simp add: aput_try_def getitem_def Let_def)

lemma update_conversation_document_anonymous:
  assumes "map_of cfg ''thread_id'' = Some t" and "\<not> truthy (map_of cfg ''user_id'')"
  shows "update_conversation_document E faults now s (Some cfg) c md =
           (Inr (), log_msg WARNING (''No user_id found in config for thread_id: '' @ t) s)"
  using assms by (simp add: update_conversation_document_def getitem_def Let_def)

lemma update_conversation_document_conversations_anonymous:
  assumes "\<not> truthy (map_of cfg ''user_id'')"
  shows "conversations_container (snd (update_conversation_document E faults now s (Some cfg) c md))
         = conversations_container s"
  using assms
  by (cases "map_of cfg ''thread_id''")
     (simp_all add: update_conversation_document_def getitem_def Let_def log_msg_def)

lemma aput_conversations_anonymous:
  assumes "\<not> truthy (map_of cfg ''user_id'')"
  shows "conversations_container (snd (aput E faults now s (Some cfg) c md)) = conversations_container s"
proof -
  have u: "conversations_container (snd (update_conversation_document E faults now s' (Some cfg) c md))
         = conversations_container s'" for s'
    using assms by (rule update_conversation_document_conversations_anonymous)
  have "conversations_container (snd (aput_try E faults now s (Some cfg) c md)) = conversations_container s"
    unfolding aput_try_def
    apply (simp split: option.splits sum.splits prod.splits add: Let_def)
    apply (intro allI impI conjI)
    using u
    apply (metis snd_conv store.select_convs(1) store.surjective store.update_convs(2))+
    done
  then show ?thesis
    by (auto simp: aput_def split: prod.splits sum.splits)
qed


lemma upsert_docs_member: "d \<in> set (upsert_docs key d docs)"
  by (induction docs) auto

text \<open>
  Claim C9. When the config of \<^verbatim>\<open>aput\<close> has no \<^verbatim>\<open>user_id\<close>, or an empty one, the
  conversations container is left as it was, whatever else happens. When moreover the
  config names the thread and the namespace, the checkpoint and the metadata can be
  serialised and the upsert of the checkpoint does not fail, \<^verbatim>\<open>aput\<close> returns the config
  of the new checkpoint, the checkpoint document is stored, and the one thing logged is
  the warning that no \<^verbatim>\<open>user_id\<close> was found.
\<close>

theorem aput_without_user_id:
  assumes "\<not> truthy (map_of cfg ''user_id'')"
  shows
    "conversations_container (snd (aput E faults now s (Some cfg) c md)) = conversations_container s \<and>
     (\<forall>t ns ty ser smd.
        map_of cfg ''thread_id'' = Some t \<and> map_of cfg ''checkpoint_ns'' = Some ns \<and>
        dumps_typed E (AnyCheckpoint c) = Inr (ty, ser) \<and> dumps E (AnyValue md) = Inr smd \<and>
        \<not> faults (UpsertCheckpoint (t @ ''_'' @ ns @ ''_'' @ ck_id c)) \<longrightarrow>
        aput E faults now s (Some cfg) c md =
          (Inr (Some [(''thread_id'', t), (''checkpoint_ns'', ns), (''checkpoint_id'', ck_id c)]),
           s\<lparr>checkpoints_container :=
                upsert_docs checkpoint_key
                  \<lparr>cd_id = t @ ''_'' @ ns @ ''_'' @ ck_id c,
                    cd_parent_checkpoint_id = map_of cfg ''checkpoint_id'',
                    cd_type = ty, cd_checkpoint = ser, cd_metadata = smd,
                    cd_thread_id = t, cd_checkpoint_ns = ns, cd_checkpoint_id = ck_id c\<rparr>
                  (checkpoints_container s),
              logger := logger s @ [(WARNING, ''No user_id found in config for thread_id: '' @ t)]\<rparr>) \<and>
        \<lparr>cd_id = t @ ''_'' @ ns @ ''_'' @ ck_id c,
          cd_parent_checkpoint_id = map_of cfg ''checkpoint_id'',
          cd_type = ty, cd_checkpoint = ser, cd_metadata = smd,
          cd_thread_id = t, cd_checkpoint_ns = ns, cd_checkpoint_id = ck_id c\<rparr>
        \<in> set (checkpoints_container (snd (aput E faults now s (Some cfg) c md))))"
proof (intro conjI allI impI)
  show "conversations_container (snd (aput E faults now s (Some cfg) c md)) = conversations_container s"
    using assms by (rule aput_conversations_anonymous)
next
  fix t ns ty ser smd
  assume h: "map_of cfg ''thread_id'' = Some t \<and> map_of cfg ''checkpoint_ns'' = Some ns \<and>
        dumps_typed E (AnyCheckpoint c) = Inr (ty, ser) \<and> dumps E (AnyValue md) = Inr smd \<and>
        \<not> faults (UpsertCheckpoint (t @ ''_'' @ ns @ ''_'' @ ck_id c))"
  let ?doc = "\<lparr>cd_id = t @ ''_'' @ ns @ ''_'' @ ck_id c,
                    cd_parent_checkpoint_id = map_of cfg ''checkpoint_id'',
                    cd_type = ty, cd_checkpoint = ser, cd_metadata = smd,
                    cd_thread_id = t, cd_checkpoint_ns = ns, cd_checkpoint_id = ck_id c\<rparr>"
  from h have eq: "aput_try E faults now s (Some cfg) c md =
      (Inr (Some [(''thread_id'', t), (''checkpoint_ns'', ns), (''checkpoint_id'', ck_id c)]),
       log_msg WARNING (''No user_id found in config for thread_id: '' @ t)
         (s\<lparr>checkpoints_container := upsert_docs checkpoint_key ?doc (checkpoints_container s)\<rparr>))"
    using assms
    by (simp add: aput_try_eq[where t=t and ns=ns and ty=ty and ser=ser and smd=smd]
        update_conversation_document_anonymous[where t=t])
  then show r: "aput E faults now s (Some cfg) c md =
          (Inr (Some [(''thread_id'', t), (''checkpoint_ns'', ns), (''checkpoint_id'', ck_id c)]),
           s\<lparr>checkpoints_container := upsert_docs checkpoint_key ?doc (checkpoints_container s),
              logger := logger s @ [(WARNING, ''No user_id found in config for thread_id: '' @ t)]\<rparr>)"
    by (simp add: aput_def log_msg_def)
  show "?doc \<in> set (checkpoints_container (snd (aput E faults now s (Some cfg) c md)))"
    by (simp add: r upsert_docs_member)
qed

theorem aput_without_user_id_witness:
  "\<not> truthy (map_of [(''thread_id'', ''t9''), (''checkpoint_ns'', []), (''user_id'', [])] ''user_id'') \<and>
   aput table_env no_faults instant1 store_after_c1
     (Some [(''thread_id'', ''t9''), (''checkpoint_ns'', []), (''user_id'', [])]) checkpoint1 (PDict []) =
     (Inr (Some [(''thread_id'', ''t9''), (''checkpoint_ns'', []), (''checkpoint_id'', ''c1'')]),
      store_after_c1
        \<lparr>checkpoints_container :=
           checkpoints_container store_after_c1 @
           [\<lparr>cd_id = ''t9__c1'', cd_parent_checkpoint_id = None, cd_type = ''checkpoint'',
             cd_checkpoint = ''1'', cd_metadata = ''d'', cd_thread_id = ''t9'',
             cd_checkpoint_ns = [], cd_checkpoint_id = ''c1''\<rparr>],
         logger := logger store_after_c1 @
           [(WARNING, ''No user_id found in config for thread_id: t9'')]\<rparr>) \<and>
   conversations_container
     (snd (aput table_env no_faults instant1 store_after_c1
        (Some [(''thread_id'', ''t9''), (''checkpoint_ns'', []), (''user_id'', [])]) checkpoint1 (PDict [])))
   = conversations_container store_after_c1"
proof -
  let ?cfg = "[(''thread_id'', ''t9''), (''checkpoint_ns'', []), (''user_id'', [])]"
  have a: "\<not> truthy (map_of ?cfg ''user_id'')" by (simp add: truthy_def)
  have d: "dumps_typed table_env (AnyCheckpoint checkpoint1) = Inr (''checkpoint'', ''1'')"
    "dumps table_env (AnyValue (PDict [])) = Inr ''d''"
    by (simp_all add: table_env_simps)
  have u: "upsert_docs checkpoint_key
             \<lparr>cd_id = ''t9__c1'', cd_parent_checkpoint_id = None, cd_type = ''checkpoint'',
               cd_checkpoint = ''1'', cd_metadata = ''d'', cd_thread_id = ''t9'',
               cd_checkpoint_ns = [], cd_checkpoint_id = ''c1''\<rparr>
             (checkpoints_container store_after_c1) =
           checkpoints_container store_after_c1 @
           [\<lparr>cd_id = ''t9__c1'', cd_parent_checkpoint_id = None, cd_type = ''checkpoint'',
             cd_checkpoint = ''1'', cd_metadata = ''d'', cd_thread_id = ''t9'',
             cd_checkpoint_ns = [], cd_checkpoint_id = ''c1''\<rparr>]"
    by (simp add: store_after_c1_eq checkpoint_key_def)
  from aput_without_user_id[OF a, of table_env no_faults instant1 store_after_c1 checkpoint1 "PDict []"]
  show ?thesis using a d u by (simp add: no_faults_def checkpoint1_def)
qed


section \<open>The namespace key\<close>

lemma aput_missing_ns:
  assumes "map_of cfg ''checkpoint_ns'' = None"
  shows "aput E faults now s (Some cfg) c md = (Inl RuntimeError, s)"
  using assms
  by (cases "map_of cfg ''thread_id''") (simp_all add: aput_def aput_try_def getitem_def)

lemma aput_writes_missing_ns:
  assumes "map_of cfg ''checkpoint_ns'' = None"
  shows "aput_writes E faults s (Some cfg) writes task_id = (Inl RuntimeError, s)"
  using assms
  by (cases "map_of cfg ''thread_id''") (simp_all add: aput_writes_def getitem_def)

lemma dict_get_append_default:
  "map_of cfg k = None \<Longrightarrow> dict_get (cfg @ [(k, v)]) k d = v"
  by (induction cfg) (auto simp: dict_get_def)

lemma dict_get_None: "map_of cfg k = None \<Longrightarrow> dict_get cfg k d = d"
  by (simp add: dict_get_def)

lemma aget_tuple_missing_ns:
  assumes "map_of cfg ''checkpoint_ns'' = None"
  shows "aget_tuple E faults s (Some cfg) = aget_tuple E faults s (Some (cfg @ [(''checkpoint_ns'', [])]))"
proof (cases "map_of cfg ''thread_id''")
  case None
  then have "map_of (cfg @ [(''checkpoint_ns'', [])]) ''thread_id'' = None"
    by (simp add: map_add_def)
  with None show ?thesis by (simp add: aget_tuple_def aget_tuple_try_no_thread)
next
  case (Some t)
  then have t': "map_of (cfg @ [(''checkpoint_ns'', [])]) ''thread_id'' = Some t"
    by (simp add: map_add_def)
  have c: "map_of (cfg @ [(''checkpoint_ns'', [])]) ''checkpoint_id'' = map_of cfg ''checkpoint_id''"
    by (simp add: map_add_def split: option.splits)
  have n: "dict_get (cfg @ [(''checkpoint_ns'', [])]) ''checkpoint_ns'' [] = dict_get cfg ''checkpoint_ns'' []"
    using assms by (simp add: dict_get_append_default dict_get_None)
  show ?thesis
    by (simp only: aget_tuple_def aget_tuple_try_eq[OF Some] aget_tuple_try_eq[OF t'] c n)
qed

lemma alist_missing_ns:
  assumes "map_of cfg ''checkpoint_ns'' = None"
  shows "alist E faults s (Some (Some cfg)) f before limit =
         alist E faults s (Some (Some (cfg @ [(''checkpoint_ns'', [])]))) f before limit"
proof -
  have t: "getitem (cfg @ [(''checkpoint_ns'', [])]) ''thread_id'' = getitem cfg ''thread_id''"
    by (simp add: getitem_def map_add_def split: option.splits)
  have n: "dict_get (cfg @ [(''checkpoint_ns'', [])]) ''checkpoint_ns'' [] = dict_get cfg ''checkpoint_ns'' []"
    using assms by (simp add: dict_get_append_default dict_get_None)
  show ?thesis by (simp only: alist_def alist_try_def t n option.case)
qed

text \<open>
  Claim C10. When the \<^verbatim>\<open>configurable\<close> mapping has no key \<^verbatim>\<open>checkpoint_ns\<close>, \<^verbatim>\<open>aput\<close> and
  \<^verbatim>\<open>aput_writes\<close> raise a \<^verbatim>\<open>RuntimeError\<close> and leave the store as it was, while
  \<^verbatim>\<open>aget_tuple\<close> and \<^verbatim>\<open>alist\<close> answer as they do for the same config with the namespace
  set to the empty string.
\<close>

theorem missing_checkpoint_ns:
  assumes "map_of cfg ''checkpoint_ns'' = None"
  shows
    "aput E faults now s (Some cfg) c md = (Inl RuntimeError, s) \<and>
     aput_writes E faults s (Some cfg) writes task_id = (Inl RuntimeError, s) \<and>
     aget_tuple E faults s (Some cfg) =
       aget_tuple E faults s (Some (cfg @ [(''checkpoint_ns'', [])])) \<and>
     alist E faults s (Some (Some cfg)) f before limit =
       alist E faults s (Some (Some (cfg @ [(''checkpoint_ns'', [])]))) f before limit"
proof (intro conjI)
  show "aput E faults now s (Some cfg) c md = (Inl RuntimeError, s)"
    using assms by (rule aput_missing_ns)
  show "aput_writes E faults s (Some cfg) writes task_id = (Inl RuntimeError, s)"
    using assms by (rule aput_writes_missing_ns)
  show "aget_tuple E faults s (Some cfg) =
       aget_tuple E faults s (Some (cfg @ [(''checkpoint_ns'', [])]))"
    using assms by (rule aget_tuple_missing_ns)
  show "alist E faults s (Some (Some cfg)) f before limit =
       alist E faults s (Some (Some (cfg @ [(''checkpoint_ns'', [])]))) f before limit"
    using assms by (rule alist_missing_ns)
qed

lemma aget_tuple_c1_default_ns:
  "aget_tuple table_env no_faults store_after_c1 (Some [(''thread_id'', ''t1'')]) =
     Some \<lparr>tup_config = Some [(''thread_id'', ''t1''), (''checkpoint_ns'', []), (''checkpoint_id'', ''c1'')],
           tup_checkpoint = AnyCheckpoint checkpoint1,
           tup_metadata = AnyValue (PDict []),
           tup_parent_config =
             Some (Some [(''thread_id'', ''t1''), (''checkpoint_ns'', []), (''checkpoint_id'', ''c0'')]),
           tup_pending_writes = Some []\<rparr>"
proof -
  have t: "map_of [(''thread_id'', ''t1'')] ''thread_id'' = Some ''t1''" by simp
  show ?thesis
    by (simp add: aget_tuple_def aget_tuple_try_eq[OF t] aget_tuple_result_eq store_after_c1_eq
        dict_get_def truthy_def no_faults_def order_by_desc_def parent_config_of_def
        table_env_def table_loads_typed_def table_loads_def loads_typed_def loads_def)
qed

theorem missing_checkpoint_ns_witness:
  "map_of [(''thread_id'', ''t1'')] ''checkpoint_ns'' = None \<and>
   aput table_env no_faults instant1 store_after_c1 (Some [(''thread_id'', ''t1'')]) checkpoint1 (PDict [])
     = (Inl RuntimeError, store_after_c1) \<and>
   aput_writes table_env no_faults store_after_c1 (Some [(''thread_id'', ''t1'')]) [(''messages'', PStr ''a'')] ''task''
     = (Inl RuntimeError, store_after_c1) \<and>
   aget_tuple table_env no_faults store_after_c1 (Some [(''thread_id'', ''t1''), (''checkpoint_ns'', [])]) =
     Some \<lparr>tup_config = Some [(''thread_id'', ''t1''), (''checkpoint_ns'', []), (''checkpoint_id'', ''c1'')],
           tup_checkpoint = AnyCheckpoint checkpoint1,
           tup_metadata = AnyValue (PDict []),
           tup_parent_config =
             Some (Some [(''thread_id'', ''t1''), (''checkpoint_ns'', []), (''checkpoint_id'', ''c0'')]),
           tup_pending_writes = Some []\<rparr> \<and>
   alist table_env no_faults store_after_c1 (Some (Some [(''thread_id'', ''t1'')])) None None None =
   alist table_env no_faults store_after_c1 (Some (Some [(''thread_id'', ''t1''), (''checkpoint_ns'', [])]))
     None None None"
proof -
  have a: "map_of [(''thread_id'', ''t1'')] ''checkpoint_ns'' = None" by simp
  from missing_checkpoint_ns[OF a, of table_env no_faults instant1 store_after_c1 checkpoint1 "PDict []"
      "[(''messages'', PStr ''a'')]" "''task''" None None None]
  show ?thesis using a aget_tuple_c1_default_ns by simp
qed


section \<open>The parent chain\<close>

lemma update_conversation_document_other_containers:
  "checkpoints_container (snd (update_conversation_document E faults now s config c md)) = checkpoints_container s"
  "writes_container (snd (update_conversation_document E faults now s config c md)) = writes_container s"
  by (auto simp: update_conversation_document_def getitem_def Let_def log_msg_def upsert_item_def
      split: option.splits sum.splits)

lemma update_conversation_document_no_faults:
  assumes "map_of cfg ''thread_id'' = Some t"
  shows "fst (update_conversation_document E no_faults now s (Some cfg) c md) = Inr ()"
  using assms
  by (simp add: update_conversation_document_def getitem_def Let_def no_faults_def)

lemma aput_no_faults:
  assumes "map_of cfg ''thread_id'' = Some t" and "map_of cfg ''checkpoint_ns'' = Some ns"
    and "dumps_typed E (AnyCheckpoint c) = Inr (ty, ser)" and "dumps E (AnyValue md) = Inr smd"
  shows "fst (aput E no_faults now s (Some cfg) c md) =
           Inr (Some [(''thread_id'', t), (''checkpoint_ns'', ns), (''checkpoint_id'', ck_id c)])"
    and "checkpoints_container (snd (aput E no_faults now s (Some cfg) c md)) =
           upsert_docs checkpoint_key
             \<lparr>cd_id = t @ ''_'' @ ns @ ''_'' @ ck_id c,
               cd_parent_checkpoint_id = map_of cfg ''checkpoint_id'',
               cd_type = ty, cd_checkpoint = ser, cd_metadata = smd,
               cd_thread_id = t, cd_checkpoint_ns = ns, cd_checkpoint_id = ck_id c\<rparr>
             (checkpoints_container s)"
    and "writes_container (snd (aput E no_faults now s (Some cfg) c md)) = writes_container s"
proof -
  let ?doc = "\<lparr>cd_id = t @ ''_'' @ ns @ ''_'' @ ck_id c,
               cd_parent_checkpoint_id = map_of cfg ''checkpoint_id'',
               cd_type = ty, cd_checkpoint = ser, cd_metadata = smd,
               cd_thread_id = t, cd_checkpoint_ns = ns, cd_checkpoint_id = ck_id c\<rparr>"
  let ?s1 = "s\<lparr>checkpoints_container := upsert_docs checkpoint_key ?doc (checkpoints_container s)\<rparr>"
  obtain r s' where u: "update_conversation_document E no_faults now ?s1 (Some cfg) c md = (r, s')"
    by (cases "update_conversation_document E no_faults now ?s1 (Some cfg) c md")
  have r: "r = Inr ()"
    using update_conversation_document_no_faults[OF assms(1), of E now ?s1 c md] u by simp
  have c: "checkpoints_container s' = checkpoints_container ?s1"
    and w: "writes_container s' = writes_container ?s1"
    using update_conversation_document_other_containers[of E no_faults now ?s1 "Some cfg" c md] u
    by simp_all
  have eq: "aput E no_faults now s (Some cfg) c md =
      (Inr (Some [(''thread_id'', t), (''checkpoint_ns'', ns), (''checkpoint_id'', ck_id c)]), s')"
    using u r by (simp add: aput_def aput_try_eq[OF assms] no_faults_def)
  show "fst (aput E no_faults now s (Some cfg) c md) =
           Inr (Some [(''thread_id'', t), (''checkpoint_ns'', ns), (''checkpoint_id'', ck_id c)])"
    by (simp add: eq)
  show "checkpoints_container (snd (aput E no_faults now s (Some cfg) c md)) =
           upsert_docs checkpoint_key ?doc (checkpoints_container s)"
    by (simp add: eq c)
  show "writes_container (snd (aput E no_faults now s (Some cfg) c md)) = writes_container s"
    by (simp add: eq w)
qed

lemma upsert_docs_keys:
  "set (map key (upsert_docs key d docs)) = insert (key d) (set (map key docs))"
  by (induction docs) auto

lemma upsert_docs_distinct:
  "distinct (map key docs) \<Longrightarrow> distinct (map key (upsert_docs key d docs))"
proof (induction docs)
  case Nil
  then show ?case by simp
next
  case (Cons x xs)
  then show ?case using upsert_docs_keys[of key d xs] by auto
qed

lemma upsert_docs_set:
  "set (upsert_docs key d docs) \<subseteq> insert d (set docs)"
  by (induction docs) auto

lemma upsert_docs_filter_key:
  "distinct (map key docs) \<Longrightarrow> filter (\<lambda>x. key x = key d) (upsert_docs key d docs) = [d]"
proof (induction docs)
  case Nil
  then show ?case by simp
next
  case (Cons x xs)
  show ?case
  proof (cases "key x = key d")
    case True
    with Cons.prems have "\<forall>y \<in> set xs. key y \<noteq> key d" by (auto simp: image_iff)
    then have "filter (\<lambda>x. key x = key d) xs = []" by (simp add: filter_empty_conv)
    with True show ?thesis by simp
  next
    case False
    with Cons show ?thesis by simp
  qed
qed

lemma checkpoints_wf_upsert:
  assumes "checkpoints_wf s"
    and "cd_id d = cd_thread_id d @ ''_'' @ cd_checkpoint_ns d @ ''_'' @ cd_checkpoint_id d"
  shows "checkpoints_wf (s\<lparr>checkpoints_container := upsert_docs checkpoint_key d (checkpoints_container s)\<rparr>)"
  using assms upsert_docs_set[of checkpoint_key d "checkpoints_container s"]
  by (auto simp: checkpoints_wf_def upsert_docs_distinct list_all_iff)

lemma checkpoints_wf_fields_key:
  assumes "list_all (\<lambda>d. cd_id d = cd_thread_id d @ ''_'' @ cd_checkpoint_ns d @ ''_'' @ cd_checkpoint_id d) docs"
    and "cd_id d = cd_thread_id d @ ''_'' @ cd_checkpoint_ns d @ ''_'' @ cd_checkpoint_id d"
    and "distinct (map checkpoint_key docs)"
  shows "filter (\<lambda>x. cd_thread_id x = cd_thread_id d \<and> cd_checkpoint_ns x = cd_checkpoint_ns d \<and>
                      cd_checkpoint_id x = cd_checkpoint_id d) (upsert_docs checkpoint_key d docs) = [d]"
proof -
  let ?docs' = "upsert_docs checkpoint_key d docs"
  have wf': "\<forall>x \<in> set ?docs'. cd_id x = cd_thread_id x @ ''_'' @ cd_checkpoint_ns x @ ''_'' @ cd_checkpoint_id x"
    using assms(1,2) upsert_docs_set[of checkpoint_key d docs] by (auto simp: list_all_iff)
  have key: "filter (\<lambda>x. checkpoint_key x = checkpoint_key d) ?docs' = [d]"
    using assms(3) by (rule upsert_docs_filter_key)
  have sub: "\<forall>x \<in> set ?docs'. (cd_thread_id x = cd_thread_id d \<and> cd_checkpoint_ns x = cd_checkpoint_ns d \<and>
                      cd_checkpoint_id x = cd_checkpoint_id d) \<longrightarrow> checkpoint_key x = checkpoint_key d"
    using wf' assms(2) by (auto simp: checkpoint_key_def)
  have "filter (\<lambda>x. cd_thread_id x = cd_thread_id d \<and> cd_checkpoint_ns x = cd_checkpoint_ns d \<and>
                      cd_checkpoint_id x = cd_checkpoint_id d) ?docs' =
        filter (\<lambda>x. cd_thread_id x = cd_thread_id d \<and> cd_checkpoint_ns x = cd_checkpoint_ns d \<and>
                      cd_checkpoint_id x = cd_checkpoint_id d)
          (filter (\<lambda>x. checkpoint_key x = checkpoint_key d) ?docs')"
    using sub by (auto simp: filter_filter intro!: filter_cong)
  then show ?thesis by (simp add: key)
qed


text \<open>
  Claim C3. Let the config of \<^verbatim>\<open>aput\<close> name a thread \<open>t\<close> and a namespace \<open>ns\<close> and carry
  the checkpoint id \<open>X\<close> (ids are non-empty strings), let the serialiser give back the
  checkpoint and the metadata it serialised, and let no storage request fail. Then
  \<^verbatim>\<open>aput\<close> returns the config of the new checkpoint, the one stored document of that
  checkpoint has \<^verbatim>\<open>parent_checkpoint_id = X\<close>, and \<^verbatim>\<open>aget_tuple\<close> on the returned config
  returns the checkpoint with a parent config that names \<open>t\<close>, \<open>ns\<close> and \<open>X\<close>.
\<close>

theorem aput_parent_chain:
  assumes cfg: "map_of cfg ''thread_id'' = Some t" "map_of cfg ''checkpoint_ns'' = Some ns"
      "map_of cfg ''checkpoint_id'' = Some X"
    and ne: "X \<noteq> []" "ck_id c \<noteq> []"
    and ser: "dumps_typed E (AnyCheckpoint c) = Inr (ty, ser)"
      "loads_typed E (ty, ser) = Inr (AnyCheckpoint c)"
    and md: "dumps E (AnyValue md) = Inr smd" "loads E smd = Inr (AnyValue md)"
    and wf: "checkpoints_wf s" and wr: "writes_decodable E s"
  shows
    "\<exists>s' tup.
       aput E no_faults now s (Some cfg) c md =
         (Inr (Some [(''thread_id'', t), (''checkpoint_ns'', ns), (''checkpoint_id'', ck_id c)]), s') \<and>
       map cd_parent_checkpoint_id
         (filter (\<lambda>d. cd_thread_id d = t \<and> cd_checkpoint_ns d = ns \<and> cd_checkpoint_id d = ck_id c)
            (checkpoints_container s')) = [Some X] \<and>
       aget_tuple E no_faults s'
         (Some [(''thread_id'', t), (''checkpoint_ns'', ns), (''checkpoint_id'', ck_id c)]) = Some tup \<and>
       tup_config tup =
         Some [(''thread_id'', t), (''checkpoint_ns'', ns), (''checkpoint_id'', ck_id c)] \<and>
       tup_checkpoint tup = AnyCheckpoint c \<and>
       tup_metadata tup = AnyValue md \<and>
       tup_parent_config tup =
         Some (Some [(''thread_id'', t), (''checkpoint_ns'', ns), (''checkpoint_id'', X)])"
proof -
  let ?doc = "\<lparr>cd_id = t @ ''_'' @ ns @ ''_'' @ ck_id c,
               cd_parent_checkpoint_id = map_of cfg ''checkpoint_id'',
               cd_type = ty, cd_checkpoint = ser, cd_metadata = smd,
               cd_thread_id = t, cd_checkpoint_ns = ns, cd_checkpoint_id = ck_id c\<rparr>"
  let ?cfg' = "[(''thread_id'', t), (''checkpoint_ns'', ns), (''checkpoint_id'', ck_id c)]"
  obtain r s' where put: "aput E no_faults now s (Some cfg) c md = (r, s')"
    by (cases "aput E no_faults now s (Some cfg) c md")
  note P = aput_no_faults[OF cfg(1,2) ser(1) md(1), of now s]
  from P(1) put have r: "r = Inr (Some ?cfg')" by simp
  from P(2) put have cks: "checkpoints_container s' = upsert_docs checkpoint_key ?doc (checkpoints_container s)"
    by simp
  from P(3) put have wrs: "writes_container s' = writes_container s" by simp
  have sel: "filter (\<lambda>d. cd_thread_id d = t \<and> cd_checkpoint_ns d = ns \<and> cd_checkpoint_id d = ck_id c)
               (checkpoints_container s') = [?doc]"
    using checkpoints_wf_fields_key[of "checkpoints_container s" ?doc] wf
    by (simp add: cks checkpoints_wf_def)
  have t': "map_of ?cfg' ''thread_id'' = Some t" by simp
  have "list_all (\<lambda>w. is_ok (loads_typed E (wd_type w, wd_value w)))
          (filter (\<lambda>w. wd_thread_id w = t \<and> wd_checkpoint_ns w = ns \<and> wd_checkpoint_id w = ck_id c)
             (writes_container s'))"
    using wr by (auto simp: writes_decodable_def wrs list_all_iff)
  from load_pending_writes_ok[OF this] obtain pw where pw:
    "load_pending_writes E
       (filter (\<lambda>w. wd_thread_id w = t \<and> wd_checkpoint_ns w = ns \<and> wd_checkpoint_id w = ck_id c)
          (writes_container s')) = Inr pw" by blast
  let ?tup = "\<lparr>tup_config = Some ?cfg', tup_checkpoint = AnyCheckpoint c, tup_metadata = AnyValue md,
               tup_parent_config = Some (Some [(''thread_id'', t), (''checkpoint_ns'', ns), (''checkpoint_id'', X)]),
               tup_pending_writes = Some pw\<rparr>"
  have res: "aget_tuple_result E no_faults s' t ns ?doc = Inr (Some ?tup)"
    using ser(2) md(2) pw cfg(3) ne(1)
    by (simp add: aget_tuple_result_eq no_faults_def parent_config_of_def truthy_def)
  have get: "aget_tuple E no_faults s' (Some ?cfg') = Some ?tup"
    using ne(2) sel res
    by (simp add: aget_tuple_def aget_tuple_try_eq[OF t'] dict_get_def truthy_def no_faults_def)
  show ?thesis
    using put r sel get cfg(3) by simp
qed


theorem aput_parent_chain_witness:
  "map_of (alice_config @ [(''checkpoint_id'', ''c0'')]) ''checkpoint_id'' = Some ''c0'' \<and>
   checkpoints_wf store_after_c0 \<and> writes_decodable table_env store_after_c0 \<and>
   (\<exists>s' tup.
      aput table_env no_faults instant2 store_after_c0
        (Some (alice_config @ [(''checkpoint_id'', ''c0'')])) checkpoint1 (PDict []) =
        (Inr (Some [(''thread_id'', ''t1''), (''checkpoint_ns'', []), (''checkpoint_id'', ''c1'')]), s') \<and>
      map cd_parent_checkpoint_id
        (filter (\<lambda>d. cd_thread_id d = ''t1'' \<and> cd_checkpoint_ns d = [] \<and> cd_checkpoint_id d = ''c1'')
           (checkpoints_container s')) = [Some ''c0''] \<and>
      aget_tuple table_env no_faults s'
        (Some [(''thread_id'', ''t1''), (''checkpoint_ns'', []), (''checkpoint_id'', ''c1'')]) = Some tup \<and>
      tup_checkpoint tup = AnyCheckpoint checkpoint1 \<and>
      tup_parent_config tup =
        Some (Some [(''thread_id'', ''t1''), (''checkpoint_ns'', []), (''checkpoint_id'', ''c0'')]))"
proof -
  let ?cfg = "alice_config @ [(''checkpoint_id'', ''c0'')]"
  have cfg: "map_of ?cfg ''thread_id'' = Some ''t1''" "map_of ?cfg ''checkpoint_ns'' = Some []"
    "map_of ?cfg ''checkpoint_id'' = Some ''c0''"
    by (simp_all add: alice_config_def)
  have ne: "''c0'' \<noteq> []" "ck_id checkpoint1 \<noteq> []" by (simp_all add: checkpoint1_def)
  have ser: "dumps_typed table_env (AnyCheckpoint checkpoint1) = Inr (''checkpoint'', ''1'')"
    "loads_typed table_env (''checkpoint'', ''1'') = Inr (AnyCheckpoint checkpoint1)"
    by (simp_all add: table_env_simps)
  have md: "dumps table_env (AnyValue (PDict [])) = Inr ''d''"
    "loads table_env ''d'' = Inr (AnyValue (PDict []))"
    by (simp_all add: table_env_simps)
  have wf: "checkpoints_wf store_after_c0"
    by (simp add: checkpoints_wf_def store_after_c0_eq)
  have wr: "writes_decodable table_env store_after_c0"
    by (simp add: writes_decodable_def store_after_c0_eq)
  from aput_parent_chain[OF cfg ne ser md wf wr, of instant2]
  show ?thesis using cfg(3) wf wr by (auto simp: checkpoint1_def)
qed


section \<open>Pending writes\<close>

lemma digit_char_inj: "a < 10 \<Longrightarrow> b < 10 \<Longrightarrow> digit_char a = digit_char b \<Longrightarrow> a = b"
proof -
  assume a: "a < 10" and b: "b < 10" and e: "digit_char a = digit_char b"
  have d: "distinct ''0123456789''" by simp
  from a b e show "a = b"
    unfolding digit_char_def using d by (simp only: nth_eq_iff_index_eq[OF d] length_Cons list.size)
qed

lemma str_nat_not_Nil: "str_nat n \<noteq> []"
  by (subst str_nat.simps) simp

lemma str_nat_inj: "str_nat n = str_nat m \<Longrightarrow> n = m"
proof (induction n arbitrary: m rule: str_nat.induct)
  case (1 n)
  show ?case
  proof (cases "n < 10")
    case True
    then have n: "str_nat n = [digit_char n]" by (subst str_nat.simps) simp
    show ?thesis
    proof (cases "m < 10")
      case mt: True
      then have "str_nat m = [digit_char m]" by (subst str_nat.simps) simp
      with n "1.prems" True mt show ?thesis by (auto dest: digit_char_inj)
    next
      case False
      then have "str_nat m = str_nat (m div 10) @ [digit_char (m mod 10)]"
        by (subst str_nat.simps) simp
      with n "1.prems" str_nat_not_Nil[of "m div 10"] show ?thesis by (cases "str_nat (m div 10)") auto
    qed
  next
    case False
    then have n: "str_nat n = str_nat (n div 10) @ [digit_char (n mod 10)]"
      by (subst str_nat.simps) simp
    show ?thesis
    proof (cases "m < 10")
      case True
      then have "str_nat m = [digit_char m]" by (subst str_nat.simps) simp
      with n "1.prems" str_nat_not_Nil[of "n div 10"] show ?thesis by (cases "str_nat (n div 10)") auto
    next
      case mf: False
      then have "str_nat m = str_nat (m div 10) @ [digit_char (m mod 10)]"
        by (subst str_nat.simps) simp
      with n "1.prems" have a: "str_nat (n div 10) = str_nat (m div 10)"
        and b: "digit_char (n mod 10) = digit_char (m mod 10)" by auto
      from "1.IH"[OF False a] have "n div 10 = m div 10" .
      moreover have "n mod 10 = m mod 10" by (rule digit_char_inj[OF _ _ b]) simp_all
      ultimately show ?thesis by (metis div_mult_mod_eq)
    qed
  qed
qed

lemma write_doc_id_inj:
  "write_doc_id t ns cid task i = write_doc_id t ns cid task j \<Longrightarrow> i = j"
  by (simp add: write_doc_id_def str_nat_inj)


lemma upsert_docs_other:
  "x \<in> set docs \<Longrightarrow> key x \<noteq> key d \<Longrightarrow> x \<in> set (upsert_docs key d docs)"
  by (induction docs) auto

lemma aput_writes_loop_keeps:
  assumes "x \<in> set docs"
    and "\<forall>j \<ge> k. write_key x \<noteq> (t, write_doc_id t ns cid task j)"
  shows "x \<in> set (aput_writes_loop E faults t ns cid task k ws docs)"
  using assms
proof (induction ws arbitrary: k docs)
  case Nil
  then show ?case by simp
next
  case (Cons w ws)
  obtain channel v where w: "w = (channel, v)" by (cases w)
  have later: "\<forall>j \<ge> Suc k. write_key x \<noteq> (t, write_doc_id t ns cid task j)"
    using Cons.prems(2) by simp
  have here: "write_key x \<noteq> (t, write_doc_id t ns cid task k)" using Cons.prems(2) by simp
  show ?case
  proof (cases "dumps_typed E (AnyValue v)")
    case (Inl e)
    then show ?thesis using w Cons.IH[OF Cons.prems(1) later] by simp
  next
    case (Inr p)
    obtain ty sv where p: "p = (ty, sv)" by (cases p)
    let ?doc = "stored_write t ns cid task k channel ty sv"
    show ?thesis
    proof (cases "faults (UpsertWrite (write_doc_id t ns cid task k))")
      case True
      then show ?thesis using w Inr p Cons.IH[OF Cons.prems(1) later] by (simp add: Let_def)
    next
      case False
      have "x \<in> set (upsert_docs write_key ?doc docs)"
        using Cons.prems(1) here by (intro upsert_docs_other) (simp_all add: write_key_def stored_write_def)
      from Cons.IH[OF this later] show ?thesis
        using w Inr p False by (simp add: Let_def stored_write_def)
    qed
  qed
qed

lemma aput_writes_loop_stores:
  assumes "i < length ws"
    and "dumps_typed E (AnyValue (snd (ws ! i))) = Inr (ty, sv)"
    and "\<not> faults (UpsertWrite (write_doc_id t ns cid task (k + i)))"
  shows "stored_write t ns cid task (k + i) (fst (ws ! i)) ty sv
           \<in> set (aput_writes_loop E faults t ns cid task k ws docs)"
  using assms
proof (induction ws arbitrary: k i docs)
  case Nil
  then show ?case by simp
next
  case (Cons w ws)
  obtain channel v where w: "w = (channel, v)" by (cases w)
  show ?case
  proof (cases i)
    case 0
    let ?doc = "stored_write t ns cid task k channel ty sv"
    have in1: "?doc \<in> set (upsert_docs write_key ?doc docs)" by (rule upsert_docs_member)
    have "\<forall>j \<ge> Suc k. write_key ?doc \<noteq> (t, write_doc_id t ns cid task j)"
      by (auto simp: write_key_def stored_write_def dest: write_doc_id_inj)
    from aput_writes_loop_keeps[OF in1 this]
    show ?thesis using 0 w Cons.prems by (simp add: Let_def stored_write_def)
  next
    case (Suc i')
    have i': "i' < length ws" using Cons.prems(1) Suc by simp
    have d: "dumps_typed E (AnyValue (snd (ws ! i'))) = Inr (ty, sv)" using Cons.prems(2) Suc by simp
    have f: "\<not> faults (UpsertWrite (write_doc_id t ns cid task (Suc k + i')))"
      using Cons.prems(3) Suc by simp
    have "stored_write t ns cid task (Suc k + i') (fst (ws ! i')) ty sv
           \<in> set (aput_writes_loop E faults t ns cid task (Suc k) ws docs')" for docs'
      using Cons.IH[OF i' d f] .
    then show ?thesis using Suc w
      by (auto simp: Let_def upsert_item_def split: sum.splits prod.splits)
  qed
qed

lemma aput_writes_loop_frame:
  "set (aput_writes_loop E faults t ns cid task k ws docs) \<subseteq>
     set docs \<union> {d. \<exists>i < length ws. \<exists>ty sv. dumps_typed E (AnyValue (snd (ws ! i))) = Inr (ty, sv) \<and>
                    \<not> faults (UpsertWrite (write_doc_id t ns cid task (k + i))) \<and>
                    d = stored_write t ns cid task (k + i) (fst (ws ! i)) ty sv}"
proof -
  define new where "new = (\<lambda>k ws. {d. \<exists>i < length ws. \<exists>ty sv.
                    dumps_typed E (AnyValue (snd (ws ! i))) = Inr (ty, sv) \<and>
                    \<not> faults (UpsertWrite (write_doc_id t ns cid task (k + i))) \<and>
                    d = stored_write t ns cid task (k + i) (fst (ws ! i)) ty sv})"
  have shift: "new (Suc k) ws \<subseteq> new k (w # ws)" for k w ws
  proof
    fix d assume "d \<in> new (Suc k) ws"
    then obtain i ty sv where "i < length ws" "dumps_typed E (AnyValue (snd (ws ! i))) = Inr (ty, sv)"
      "\<not> faults (UpsertWrite (write_doc_id t ns cid task (Suc k + i)))"
      "d = stored_write t ns cid task (Suc k + i) (fst (ws ! i)) ty sv" unfolding new_def by blast
    then have "Suc i < length (w # ws) \<and> dumps_typed E (AnyValue (snd ((w # ws) ! Suc i))) = Inr (ty, sv) \<and>
      \<not> faults (UpsertWrite (write_doc_id t ns cid task (k + Suc i))) \<and>
      d = stored_write t ns cid task (k + Suc i) (fst ((w # ws) ! Suc i)) ty sv" by simp
    then show "d \<in> new k (w # ws)" unfolding new_def by blast
  qed
  have "set (aput_writes_loop E faults t ns cid task k ws docs) \<subseteq> set docs \<union> new k ws"
  proof (induction ws arbitrary: k docs)
    case Nil
    then show ?case by simp
  next
    case (Cons w ws)
    obtain channel v where w: "w = (channel, v)" by (cases w)
    note IH = Cons.IH[of "Suc k"]
    show ?case
    proof (cases "dumps_typed E (AnyValue v)")
      case (Inl e)
      then have eq: "aput_writes_loop E faults t ns cid task k (w # ws) docs =
          aput_writes_loop E faults t ns cid task (Suc k) ws docs" using w by simp
      show ?thesis unfolding eq using IH[of docs] shift[of k ws w] by blast
    next
      case (Inr p)
      obtain ty sv where p: "p = (ty, sv)" by (cases p)
      let ?doc = "stored_write t ns cid task k channel ty sv"
      show ?thesis
      proof (cases "faults (UpsertWrite (write_doc_id t ns cid task k))")
        case True
        then have eq: "aput_writes_loop E faults t ns cid task k (w # ws) docs =
          aput_writes_loop E faults t ns cid task (Suc k) ws docs" using w Inr p by (simp add: Let_def)
        show ?thesis unfolding eq using IH[of docs] shift[of k ws w] by blast
      next
        case False
        have "0 < length (w # ws) \<and> dumps_typed E (AnyValue (snd ((w # ws) ! 0))) = Inr (ty, sv) \<and>
              \<not> faults (UpsertWrite (write_doc_id t ns cid task (k + 0))) \<and>
              ?doc = stored_write t ns cid task (k + 0) (fst ((w # ws) ! 0)) ty sv"
          using w Inr p False by simp
        then have 1: "?doc \<in> new k (w # ws)" unfolding new_def by blast
        have 2: "set (upsert_docs write_key ?doc docs) \<subseteq> insert ?doc (set docs)"
          by (rule upsert_docs_set)
        have 3: "aput_writes_loop E faults t ns cid task k (w # ws) docs =
          aput_writes_loop E faults t ns cid task (Suc k) ws (upsert_docs write_key ?doc docs)"
          using w Inr p False by (simp add: Let_def stored_write_def)
        show ?thesis
          unfolding 3 using 1 2 IH[of "upsert_docs write_key ?doc docs"] shift[of k ws w] by blast
      qed
    qed
  qed
  then show ?thesis unfolding new_def .
qed


lemma aput_writes_eq:
  assumes "map_of cfg ''thread_id'' = Some t" and "map_of cfg ''checkpoint_ns'' = Some ns"
    and "map_of cfg ''checkpoint_id'' = Some cid"
  shows "aput_writes E faults s (Some cfg) writes task =
           (Inr (), s\<lparr>writes_container :=
                       aput_writes_loop E faults t ns cid task 0 writes (writes_container s)\<rparr>)"
  using assms by (simp add: aput_writes_def getitem_def)

lemma aput_writes_batch_failure:
  assumes "map_of cfg ''thread_id'' = None \<or> map_of cfg ''checkpoint_ns'' = None \<or>
           map_of cfg ''checkpoint_id'' = None"
  shows "aput_writes E faults s (Some cfg) writes task = (Inl RuntimeError, s)"
  using assms
  by (cases "map_of cfg ''thread_id''"; cases "map_of cfg ''checkpoint_ns''";
      cases "map_of cfg ''checkpoint_id''") (simp_all add: aput_writes_def getitem_def)

lemma append_first_separator:
  "c \<notin> set xs \<Longrightarrow> c \<notin> set xs' \<Longrightarrow> xs @ c # ys = xs' @ c # ys' \<Longrightarrow> xs = xs' \<and> ys = ys'"
proof (induction xs arbitrary: xs')
  case Nil
  then show ?case by (cases xs') auto
next
  case (Cons x xs)
  then show ?case by (cases xs') auto
qed

lemma append_last_separator:
  assumes "c \<notin> set b" and "c \<notin> set b'" and "a @ c # b = a' @ c # b'"
  shows "a = a' \<and> b = b'"
proof -
  from assms(3) have "rev (a @ c # b) = rev (a' @ c # b')" by simp
  then have "rev b @ c # rev a = rev b' @ c # rev a'" by simp
  moreover have "c \<notin> set (rev b)" "c \<notin> set (rev b')" using assms(1,2) by simp_all
  ultimately have "rev b = rev b' \<and> rev a = rev a'" by (rule append_first_separator[rotated 2])
  then show ?thesis by simp
qed

lemma digit_char_no_underscore: "d < 10 \<Longrightarrow> digit_char d \<noteq> CHR ''_''"
proof -
  assume "d < 10"
  then have "digit_char d \<in> set ''0123456789''" unfolding digit_char_def by (intro nth_mem) simp
  then show ?thesis by auto
qed

lemma str_nat_underscore_free: "underscore_free (str_nat n)"
proof (induction n rule: str_nat.induct)
  case (1 n)
  show ?case
  proof (cases "n < 10")
    case True
    then have "str_nat n = [digit_char n]" by (subst str_nat.simps) simp
    with True show ?thesis using digit_char_no_underscore[of n] by (simp add: underscore_free_def)
  next
    case False
    then have "str_nat n = str_nat (n div 10) @ [digit_char (n mod 10)]"
      by (subst str_nat.simps) simp
    moreover have "digit_char (n mod 10) \<noteq> CHR ''_''" by (rule digit_char_no_underscore) simp
    ultimately show ?thesis using "1.IH"[OF False] by (simp add: underscore_free_def)
  qed
qed

lemma write_key_five_components:
  assumes "underscore_free cid" and "underscore_free task"
    and "underscore_free cid'" and "underscore_free task'"
    and "(t, write_doc_id t ns cid task i) = (t', write_doc_id t' ns' cid' task' i')"
  shows "t' = t \<and> ns' = ns \<and> cid' = cid \<and> task' = task \<and> i' = i"
proof -
  from assms(5) have t: "t' = t" by simp
  with assms(5) have "(ns @ ''_'' @ cid @ ''_'' @ task) @ CHR ''_'' # str_nat i =
                      (ns' @ ''_'' @ cid' @ ''_'' @ task') @ CHR ''_'' # str_nat i'"
    by (simp add: write_doc_id_def)
  from append_last_separator[OF _ _ this] str_nat_underscore_free[of i] str_nat_underscore_free[of i']
  have 1: "ns @ ''_'' @ cid @ ''_'' @ task = ns' @ ''_'' @ cid' @ ''_'' @ task'"
    and i: "str_nat i = str_nat i'" by (simp_all add: underscore_free_def)
  from 1 have "(ns @ ''_'' @ cid) @ CHR ''_'' # task = (ns' @ ''_'' @ cid') @ CHR ''_'' # task'" by simp
  from append_last_separator[OF _ _ this] assms(2,4)
  have 2: "ns @ ''_'' @ cid = ns' @ ''_'' @ cid'" and task: "task = task'"
    by (simp_all add: underscore_free_def)
  from 2 have "ns @ CHR ''_'' # cid = ns' @ CHR ''_'' # cid'" by simp
  from append_last_separator[OF _ _ this] assms(1,3)
  have "ns = ns'" "cid = cid'" by (simp_all add: underscore_free_def)
  with t task str_nat_inj[OF i] show ?thesis by simp
qed

lemma aput_writes_loop_distinct:
  "distinct (map write_key docs) \<Longrightarrow>
   distinct (map write_key (aput_writes_loop E faults t ns cid task k ws docs))"
proof (induction ws arbitrary: k docs)
  case Nil
  then show ?case by simp
next
  case (Cons w ws)
  obtain channel v where w: "w = (channel, v)" by (cases w)
  have "distinct (map write_key (upsert_docs write_key d docs))" for d
    using Cons.prems by (rule upsert_docs_distinct)
  then show ?case using w Cons.IH Cons.prems
    by (auto simp: Let_def upsert_item_def split: sum.splits prod.splits)
qed

text \<open>
  Claim C7, amended. For a config that names thread, namespace and checkpoint,
  \<^verbatim>\<open>aput_writes\<close> returns normally whatever happens to the single writes. Every write of
  the batch whose value can be serialised and whose upsert does not fail is stored
  afterwards, as the document of its position, under the key made of the thread and the
  id \<^verbatim>\<open>thread_ns_checkpoint_task_idx\<close>. The ids of two positions differ; a container
  that held at most one document for each key still does; and the key determines thread,
  namespace, checkpoint, task and position when the checkpoint ids and the task ids have
  no underscore. Every document of the container afterwards was there before or is such
  a document of the batch, and a document stored before under another key is still
  there. A config without one of the three keys, or without \<^verbatim>\<open>configurable\<close>, makes the
  call raise a \<^verbatim>\<open>RuntimeError\<close> and leaves the store as it was.
\<close>

theorem aput_writes_batch:
  "(map_of cfg ''thread_id'' = Some t \<and> map_of cfg ''checkpoint_ns'' = Some ns \<and>
    map_of cfg ''checkpoint_id'' = Some cid \<longrightarrow>
      fst (aput_writes E faults s (Some cfg) writes task) = Inr () \<and>
      (\<forall>i < length writes. \<forall>ty sv.
         dumps_typed E (AnyValue (snd (writes ! i))) = Inr (ty, sv) \<and>
         \<not> faults (UpsertWrite (write_doc_id t ns cid task i)) \<longrightarrow>
         stored_write t ns cid task i (fst (writes ! i)) ty sv
           \<in> set (writes_container (snd (aput_writes E faults s (Some cfg) writes task)))) \<and>
      (\<forall>i j. i \<noteq> j \<longrightarrow> write_doc_id t ns cid task i \<noteq> write_doc_id t ns cid task j) \<and>
      (\<forall>i t' ns' cid' task' i'.
         underscore_free cid \<and> underscore_free task \<and> underscore_free cid' \<and> underscore_free task' \<and>
         (t, write_doc_id t ns cid task i) = (t', write_doc_id t' ns' cid' task' i') \<longrightarrow>
         t' = t \<and> ns' = ns \<and> cid' = cid \<and> task' = task \<and> i' = i) \<and>
      (distinct (map write_key (writes_container s)) \<longrightarrow>
         distinct (map write_key
           (writes_container (snd (aput_writes E faults s (Some cfg) writes task))))) \<and>
      (\<forall>d \<in> set (writes_container (snd (aput_writes E faults s (Some cfg) writes task))).
         d \<in> set (writes_container s) \<or>
         (\<exists>i < length writes. \<exists>ty sv.
            dumps_typed E (AnyValue (snd (writes ! i))) = Inr (ty, sv) \<and>
            \<not> faults (UpsertWrite (write_doc_id t ns cid task i)) \<and>
            d = stored_write t ns cid task i (fst (writes ! i)) ty sv)) \<and>
      (\<forall>x \<in> set (writes_container s).
         (\<forall>j. write_key x \<noteq> (t, write_doc_id t ns cid task j)) \<longrightarrow>
         x \<in> set (writes_container (snd (aput_writes E faults s (Some cfg) writes task))))) \<and>
   (map_of cfg ''thread_id'' = None \<or> map_of cfg ''checkpoint_ns'' = None \<or>
    map_of cfg ''checkpoint_id'' = None \<longrightarrow>
      aput_writes E faults s (Some cfg) writes task = (Inl RuntimeError, s)) \<and>
   aput_writes E faults s None writes task = (Inl RuntimeError, s)"
proof (intro conjI impI)
  assume k: "map_of cfg ''thread_id'' = Some t \<and> map_of cfg ''checkpoint_ns'' = Some ns \<and>
    map_of cfg ''checkpoint_id'' = Some cid"
  then have eq: "aput_writes E faults s (Some cfg) writes task =
           (Inr (), s\<lparr>writes_container :=
                       aput_writes_loop E faults t ns cid task 0 writes (writes_container s)\<rparr>)"
    by (intro aput_writes_eq) simp_all
  show "fst (aput_writes E faults s (Some cfg) writes task) = Inr ()" by (simp add: eq)
  show "\<forall>i < length writes. \<forall>ty sv.
         dumps_typed E (AnyValue (snd (writes ! i))) = Inr (ty, sv) \<and>
         \<not> faults (UpsertWrite (write_doc_id t ns cid task i)) \<longrightarrow>
         stored_write t ns cid task i (fst (writes ! i)) ty sv
           \<in> set (writes_container (snd (aput_writes E faults s (Some cfg) writes task)))"
    using aput_writes_loop_stores[of _ writes E _ _ faults t ns cid task 0 "writes_container s"]
    by (simp add: eq)
  show "\<forall>i j. i \<noteq> j \<longrightarrow> write_doc_id t ns cid task i \<noteq> write_doc_id t ns cid task j"
    using write_doc_id_inj by blast
  show "\<forall>i t' ns' cid' task' i'.
         underscore_free cid \<and> underscore_free task \<and> underscore_free cid' \<and> underscore_free task' \<and>
         (t, write_doc_id t ns cid task i) = (t', write_doc_id t' ns' cid' task' i') \<longrightarrow>
         t' = t \<and> ns' = ns \<and> cid' = cid \<and> task' = task \<and> i' = i"
  proof (intro allI impI)
    fix i t' ns' cid' task' i'
    assume h: "underscore_free cid \<and> underscore_free task \<and> underscore_free cid' \<and>
         underscore_free task' \<and>
         (t, write_doc_id t ns cid task i) = (t', write_doc_id t' ns' cid' task' i')"
    then have e: "(t, write_doc_id t ns cid task i) = (t', write_doc_id t' ns' cid' task' i')"
      and u: "underscore_free cid" "underscore_free task" "underscore_free cid'"
        "underscore_free task'"
      by blast+
    show "t' = t \<and> ns' = ns \<and> cid' = cid \<and> task' = task \<and> i' = i"
      using u e by (rule write_key_five_components)
  qed
  show "\<forall>d \<in> set (writes_container (snd (aput_writes E faults s (Some cfg) writes task))).
         d \<in> set (writes_container s) \<or>
         (\<exists>i < length writes. \<exists>ty sv.
            dumps_typed E (AnyValue (snd (writes ! i))) = Inr (ty, sv) \<and>
            \<not> faults (UpsertWrite (write_doc_id t ns cid task i)) \<and>
            d = stored_write t ns cid task i (fst (writes ! i)) ty sv)"
    using aput_writes_loop_frame[of E faults t ns cid task 0 writes "writes_container s"]
    by (auto simp: eq)
  show "\<forall>x \<in> set (writes_container s).
         (\<forall>j. write_key x \<noteq> (t, write_doc_id t ns cid task j)) \<longrightarrow>
         x \<in> set (writes_container (snd (aput_writes E faults s (Some cfg) writes task)))"
    using aput_writes_loop_keeps[of _ "writes_container s" 0 t ns cid task E faults writes]
    by (simp add: eq)
next
  assume k: "map_of cfg ''thread_id'' = Some t \<and> map_of cfg ''checkpoint_ns'' = Some ns \<and>
    map_of cfg ''checkpoint_id'' = Some cid"
    and d: "distinct (map write_key (writes_container s))"
  from k have eq: "aput_writes E faults s (Some cfg) writes task =
           (Inr (), s\<lparr>writes_container :=
                       aput_writes_loop E faults t ns cid task 0 writes (writes_container s)\<rparr>)"
    by (intro aput_writes_eq) simp_all
  show "distinct (map write_key
           (writes_container (snd (aput_writes E faults s (Some cfg) writes task))))"
    using aput_writes_loop_distinct[OF d] by (simp add: eq)
next
  assume "map_of cfg ''thread_id'' = None \<or> map_of cfg ''checkpoint_ns'' = None \<or>
    map_of cfg ''checkpoint_id'' = None"
  then show "aput_writes E faults s (Some cfg) writes task = (Inl RuntimeError, s)"
    by (rule aput_writes_batch_failure)
next
  show "aput_writes E faults s None writes task = (Inl RuntimeError, s)"
    by (simp add: aput_writes_def)
qed

lemmas write_doc_id_simps = write_doc_id_def str_nat.simps digit_char_def

lemma four_writes_result:
  "writes_container
     (snd (aput_writes table_env third_upsert_fails store_after_c1
        (Some [(''thread_id'', ''t1''), (''checkpoint_ns'', []), (''checkpoint_id'', ''c1'')])
        four_writes ''task'')) =
   [stored_write ''t1'' [] ''c1'' ''task'' 0 ''messages'' ''str'' ''a'',
    stored_write ''t1'' [] ''c1'' ''task'' 3 ''done'' ''str'' ''yes'']"
  by (simp add: aput_writes_def getitem_def four_writes_def third_upsert_fails_def
      store_after_c1_eq stored_write_def write_doc_id_simps write_key_def Let_def
      table_env_def table_dumps_typed_def dumps_typed_def numeral_3_eq_3)

theorem aput_writes_batch_witness:
  "fst (aput_writes table_env third_upsert_fails store_after_c1
        (Some [(''thread_id'', ''t1''), (''checkpoint_ns'', []), (''checkpoint_id'', ''c1'')])
        four_writes ''task'') = Inr () \<and>
   stored_write ''t1'' [] ''c1'' ''task'' 0 ''messages'' ''str'' ''a''
     \<in> set (writes_container
        (snd (aput_writes table_env third_upsert_fails store_after_c1
           (Some [(''thread_id'', ''t1''), (''checkpoint_ns'', []), (''checkpoint_id'', ''c1'')])
           four_writes ''task''))) \<and>
   stored_write ''t1'' [] ''c1'' ''task'' 3 ''done'' ''str'' ''yes''
     \<in> set (writes_container
        (snd (aput_writes table_env third_upsert_fails store_after_c1
           (Some [(''thread_id'', ''t1''), (''checkpoint_ns'', []), (''checkpoint_id'', ''c1'')])
           four_writes ''task''))) \<and>
   dumps_typed table_env (AnyValue (snd (four_writes ! 1))) = Inl ValueError \<and>
   third_upsert_fails (UpsertWrite (write_doc_id ''t1'' [] ''c1'' ''task'' 2)) \<and>
   length (writes_container
        (snd (aput_writes table_env third_upsert_fails store_after_c1
           (Some [(''thread_id'', ''t1''), (''checkpoint_ns'', []), (''checkpoint_id'', ''c1'')])
           four_writes ''task''))) = 2 \<and>
   distinct (map write_key (writes_container store_after_c1)) \<and>
   distinct (map write_key (writes_container
        (snd (aput_writes table_env third_upsert_fails store_after_c1
           (Some [(''thread_id'', ''t1''), (''checkpoint_ns'', []), (''checkpoint_id'', ''c1'')])
           four_writes ''task'')))) \<and>
   underscore_free ''c1'' \<and> underscore_free ''task'' \<and> underscore_free ''c2'' \<and>
   (''t1'', write_doc_id ''t1'' [] ''c1'' ''task'' 0) \<noteq>
   (''t1'', write_doc_id ''t1'' [] ''c2'' ''task'' 0)"
proof -
  let ?cfg = "[(''thread_id'', ''t1''), (''checkpoint_ns'', []), (''checkpoint_id'', ''c1'')]"
  have k: "map_of ?cfg ''thread_id'' = Some ''t1'' \<and> map_of ?cfg ''checkpoint_ns'' = Some [] \<and>
    map_of ?cfg ''checkpoint_id'' = Some ''c1''" by simp
  note T = aput_writes_batch[of ?cfg "''t1''" "[]" "''c1''" table_env third_upsert_fails
      store_after_c1 four_writes "''task''"]
  have d0: "dumps_typed table_env (AnyValue (snd (four_writes ! 0))) = Inr (''str'', ''a'')"
    and d3: "dumps_typed table_env (AnyValue (snd (four_writes ! 3))) = Inr (''str'', ''yes'')"
    and d1: "dumps_typed table_env (AnyValue (snd (four_writes ! 1))) = Inl ValueError"
    by (simp_all add: four_writes_def table_env_def table_dumps_typed_def dumps_typed_def)
  have f0: "\<not> third_upsert_fails (UpsertWrite (write_doc_id ''t1'' [] ''c1'' ''task'' 0))"
    and f3: "\<not> third_upsert_fails (UpsertWrite (write_doc_id ''t1'' [] ''c1'' ''task'' 3))"
    and f2: "third_upsert_fails (UpsertWrite (write_doc_id ''t1'' [] ''c1'' ''task'' 2))"
    by (simp_all add: third_upsert_fails_def write_doc_id_simps)
  have l: "length four_writes = 4" by (simp add: four_writes_def)
  have c0: "fst (four_writes ! 0) = ''messages''" and c3: "fst (four_writes ! 3) = ''done''"
    by (simp_all add: four_writes_def)
  from T k have 1: "fst (aput_writes table_env third_upsert_fails store_after_c1 (Some ?cfg)
        four_writes ''task'') = Inr ()" by blast
  from T k have S: "\<forall>i < length four_writes. \<forall>ty sv.
         dumps_typed table_env (AnyValue (snd (four_writes ! i))) = Inr (ty, sv) \<and>
         \<not> third_upsert_fails (UpsertWrite (write_doc_id ''t1'' [] ''c1'' ''task'' i)) \<longrightarrow>
         stored_write ''t1'' [] ''c1'' ''task'' i (fst (four_writes ! i)) ty sv
           \<in> set (writes_container (snd (aput_writes table_env third_upsert_fails store_after_c1
                  (Some ?cfg) four_writes ''task'')))" by blast
  from S[rule_format, of 0 "''str''" "''a''"] d0 f0 l c0
  have 2: "stored_write ''t1'' [] ''c1'' ''task'' 0 ''messages'' ''str'' ''a''
     \<in> set (writes_container (snd (aput_writes table_env third_upsert_fails store_after_c1
           (Some ?cfg) four_writes ''task'')))" by simp
  from S[rule_format, of 3 "''str''" "''yes''"] d3 f3 l c3
  have 3: "stored_write ''t1'' [] ''c1'' ''task'' 3 ''done'' ''str'' ''yes''
     \<in> set (writes_container (snd (aput_writes table_env third_upsert_fails store_after_c1
           (Some ?cfg) four_writes ''task'')))" by simp
  have dp: "distinct (map write_key (writes_container store_after_c1))"
    by (simp add: store_after_c1_eq)
  from T k dp have 4: "distinct (map write_key (writes_container
        (snd (aput_writes table_env third_upsert_fails store_after_c1 (Some ?cfg)
           four_writes ''task''))))" by blast
  have u: "underscore_free ''c1''" "underscore_free ''task''" "underscore_free ''c2''"
    by (simp_all add: underscore_free_def)
  from T k have F: "\<forall>i t' ns' cid' task' i'.
         underscore_free ''c1'' \<and> underscore_free ''task'' \<and> underscore_free cid' \<and>
         underscore_free task' \<and>
         (''t1'', write_doc_id ''t1'' [] ''c1'' ''task'' i) =
         (t', write_doc_id t' ns' cid' task' i') \<longrightarrow>
         t' = ''t1'' \<and> ns' = [] \<and> cid' = ''c1'' \<and> task' = ''task'' \<and> i' = i" by blast
  from F[rule_format, of "''c2''" "''task''" 0 "''t1''" "[]" 0] u
  have 5: "(''t1'', write_doc_id ''t1'' [] ''c1'' ''task'' 0) \<noteq>
   (''t1'', write_doc_id ''t1'' [] ''c2'' ''task'' 0)" by auto
  from 1 2 3 d1 f2 four_writes_result have
    "fst (aput_writes table_env third_upsert_fails store_after_c1 (Some ?cfg)
        four_writes ''task'') = Inr () \<and>
   stored_write ''t1'' [] ''c1'' ''task'' 0 ''messages'' ''str'' ''a''
     \<in> set (writes_container
        (snd (aput_writes table_env third_upsert_fails store_after_c1 (Some ?cfg)
           four_writes ''task''))) \<and>
   stored_write ''t1'' [] ''c1'' ''task'' 3 ''done'' ''str'' ''yes''
     \<in> set (writes_container
        (snd (aput_writes table_env third_upsert_fails store_after_c1 (Some ?cfg)
           four_writes ''task''))) \<and>
   dumps_typed table_env (AnyValue (snd (four_writes ! 1))) = Inl ValueError \<and>
   third_upsert_fails (UpsertWrite (write_doc_id ''t1'' [] ''c1'' ''task'' 2)) \<and>
   length (writes_container
        (snd (aput_writes table_env third_upsert_fails store_after_c1 (Some ?cfg)
           four_writes ''task''))) = 2" by simp
  with dp 4 u 5 show ?thesis by blast
qed

text \<open>
  Claim C7, as stated, fails: the key is not unique for the five components. Two
  checkpoints of one thread, \<^verbatim>\<open>b_c\<close> in namespace \<^verbatim>\<open>a\<close> and \<^verbatim>\<open>c\<close> in namespace \<^verbatim>\<open>a_b\<close>, give
  the same document id for the same task and position, and the write for the second
  replaces the write for the first.
\<close>

theorem aput_writes_key_counterexample:
  "(''a'', ''b_c'') \<noteq> (''a_b'', ''c'') \<and>
   write_doc_id ''t1'' ''a'' ''b_c'' ''task'' 0 = write_doc_id ''t1'' ''a_b'' ''c'' ''task'' 0 \<and>
   writes_container
     (snd (aput_writes table_env no_faults empty_store
             (Some [(''thread_id'', ''t1''), (''checkpoint_ns'', ''a''), (''checkpoint_id'', ''b_c'')])
             [(''messages'', PStr ''x'')] ''task'')) =
     [stored_write ''t1'' ''a'' ''b_c'' ''task'' 0 ''messages'' ''str'' ''x''] \<and>
   writes_container
     (snd (aput_writes table_env no_faults
        (snd (aput_writes table_env no_faults empty_store
                (Some [(''thread_id'', ''t1''), (''checkpoint_ns'', ''a''), (''checkpoint_id'', ''b_c'')])
                [(''messages'', PStr ''x'')] ''task''))
        (Some [(''thread_id'', ''t1''), (''checkpoint_ns'', ''a_b''), (''checkpoint_id'', ''c'')])
        [(''messages'', PStr ''y'')] ''task'')) =
   [stored_write ''t1'' ''a_b'' ''c'' ''task'' 0 ''messages'' ''str'' ''y'']"
  by (simp add: aput_writes_def getitem_def no_faults_def empty_store_def
      stored_write_def write_doc_id_simps write_key_def Let_def
      table_env_def table_dumps_typed_def dumps_typed_def)


section \<open>Deleting a conversation\<close>

lemma delete_each_Nil [simp]: "delete_each fault key [] docs = (Inr (), docs)"
  by simp

lemma delete_conversation_try_writes:
  "writes_container (snd (delete_conversation_try faults s thread_id)) = writes_container s"
  by (auto simp: delete_conversation_try_def Let_def query_items_def split: sum.splits prod.splits list.splits)

lemma delete_conversation_keeps_writes:
  "writes_container (snd (delete_conversation faults s thread_id)) = writes_container s"
  using delete_conversation_try_writes[of faults s thread_id]
  by (auto simp: delete_conversation_def log_msg_def split: prod.splits sum.splits)

lemma store_with_writes_eq:
  "store_with_writes =
     store_after_c1\<lparr>writes_container :=
       [stored_write ''t1'' [] ''c1'' ''task'' 0 ''messages'' ''str'' ''a'',
        stored_write ''t1'' [] ''c1'' ''task'' 1 ''messages'' ''str'' ''b'']\<rparr>"
  by (simp add: store_with_writes_def aput_writes_def getitem_def no_faults_def
      store_after_c1_eq stored_write_def write_doc_id_simps write_key_def Let_def
      table_env_def table_dumps_typed_def dumps_typed_def)

text \<open>
  Claim C5 against the code. With no conversation document for the thread and no storage
  failure, \<^verbatim>\<open>delete_conversation\<close> returns \<^verbatim>\<open>True\<close>, not \<^verbatim>\<open>False\<close>. With a conversation,
  its checkpoints and two pending writes stored, it returns \<^verbatim>\<open>True\<close> and removes the
  conversation and the checkpoints, and both pending writes are still stored.
\<close>

theorem delete_conversation_at_failing_inputs:
  "delete_conversation no_faults empty_store ''t404'' = (True, empty_store) \<and>
   fst (delete_conversation no_faults store_with_writes ''t1'') = True \<and>
   conversations_container (snd (delete_conversation no_faults store_with_writes ''t1'')) = [] \<and>
   checkpoints_container (snd (delete_conversation no_faults store_with_writes ''t1'')) = [] \<and>
   writes_container (snd (delete_conversation no_faults store_with_writes ''t1'')) =
     [stored_write ''t1'' [] ''c1'' ''task'' 0 ''messages'' ''str'' ''a'',
      stored_write ''t1'' [] ''c1'' ''task'' 1 ''messages'' ''str'' ''b'']"
  by (simp add: delete_conversation_def delete_conversation_try_def Let_def query_items_def
      delete_item_def no_faults_def empty_store_def store_with_writes_eq store_after_c1_eq
      conversation_key_def checkpoint_key_def)


section \<open>The conversation directory\<close>

lemma update_conversation_document_identified:
  assumes "map_of cfg ''thread_id'' = Some t" and "map_of cfg ''user_id'' = Some u" and "u \<noteq> []"
  shows "conversations_container (snd (update_conversation_document E no_faults now s (Some cfg) c md)) =
           upsert_docs conversation_key
             \<lparr>cv_id = t, cv_userId = u, cv_lastUpdated = isoformat E now,
               cv_messages = serialize_for_cosmosdb E (checkpoint_messages c),
               cv_checkpointId = ck_id c, cv_metadata = serialize_for_cosmosdb E md\<rparr>
             (conversations_container s)"
  using assms
  by (simp add: update_conversation_document_def getitem_def Let_def no_faults_def truthy_def log_msg_def)


lemma where_eq_single:
  "where_eq [(name, v)] field name = (\<lambda>d. field d = v)"
  by (rule ext) simp




lemma order_by_desc_single [simp]: "order_by_desc f [x] = [x]"
  by (simp add: order_by_desc_def)















section \<open>One conversation per user\<close>

lemma delete_each_ok:
  assumes "distinct (map key xs)" and "set xs \<subseteq> set docs" and "\<forall>x \<in> set xs. \<not> fault x"
  shows "delete_each fault key xs docs = (Inr (), filter (\<lambda>d. key d \<notin> set (map key xs)) docs)"
  using assms
proof (induction xs arbitrary: docs)
  case Nil
  then show ?case by simp
next
  case (Cons x xs)
  let ?docs' = "filter (\<lambda>d. key d \<noteq> key x) docs"
  have d: "delete_item (fault x) key (key x) docs = Inr ?docs'"
    using Cons.prems by (auto simp: delete_item_def)
  have sub: "set xs \<subseteq> set ?docs'" using Cons.prems by (auto simp: image_iff)
  have "delete_each fault key xs ?docs' = (Inr (), filter (\<lambda>d. key d \<notin> set (map key xs)) ?docs')"
    using Cons.prems sub by (intro Cons.IH) simp_all
  moreover have "filter (\<lambda>d. key d \<notin> set (map key xs)) ?docs' =
                 filter (\<lambda>d. key d \<notin> set (map key (x # xs))) docs"
    by (auto intro: filter_cong)
  ultimately show ?case using d by simp
qed

lemma filter_all_but_one:
  assumes "distinct (map key xs)" and "h \<in> set xs" and "key h \<notin> K"
    and "\<forall>x \<in> set xs. x \<noteq> h \<longrightarrow> key x \<in> K"
  shows "filter (\<lambda>d. key d \<notin> K) xs = [h]"
  using assms
proof (induction xs)
  case Nil
  then show ?case by simp
next
  case (Cons x xs)
  show ?case
  proof (cases "x = h")
    case True
    have "\<forall>y \<in> set xs. key y \<in> K"
    proof
      fix y assume y: "y \<in> set xs"
      with Cons.prems(1) True have "y \<noteq> h" by auto
      with Cons.prems(4) y show "key y \<in> K" by simp
    qed
    then have "filter (\<lambda>d. key d \<notin> K) xs = []" by (simp add: filter_empty_conv)
    with True Cons.prems(3) show ?thesis by simp
  next
    case False
    with Cons.prems have "h \<in> set xs" "key x \<in> K" by auto
    with Cons show ?thesis by simp
  qed
qed

lemma order_by_desc_set [simp]: "set (order_by_desc f xs) = set xs"
  by (simp add: order_by_desc_def)

lemma order_by_desc_length [simp]: "length (order_by_desc f xs) = length xs"
  by (simp add: order_by_desc_def)

lemma order_by_desc_distinct:
  "distinct (map key xs) \<Longrightarrow> distinct (map key (order_by_desc f xs))"
  by (simp add: distinct_map order_by_desc_def)


lemma cleanup_old_conversations_eq:
  "cleanup_old_conversations no_faults s u =
     (if length (conversations_of s u) \<le> 1 then (Inr (), s)
      else case delete_each (\<lambda>conv. no_faults (DeleteConversation (cv_id conv))) conversation_key
                  (tl (order_by_desc cv_lastUpdated (conversations_of s u)))
                  (conversations_container s) of
             (r, docs') \<Rightarrow> (r, s\<lparr>conversations_container := docs'\<rparr>))"
  by (simp add: cleanup_old_conversations_def query_items_def no_faults_def conversations_of_def
      where_eq_single Let_def)

lemma order_by_desc_short: "length xs \<le> Suc 0 \<Longrightarrow> order_by_desc f xs = xs"
  by (cases xs) (simp_all add: order_by_desc_def)

lemma cleanup_result:
  assumes "distinct (map conversation_key (conversations_of s u))"
  shows "fst (cleanup_old_conversations no_faults s u) = Inr ()"
    and "conversations_of (snd (cleanup_old_conversations no_faults s u)) u =
           take 1 (order_by_desc cv_lastUpdated (conversations_of s u))"
    and "\<forall>v. v \<noteq> u \<longrightarrow> conversations_of (snd (cleanup_old_conversations no_faults s u)) v =
           conversations_of s v"
proof -
  let ?c = "conversations_of s u"
  let ?sorted = "order_by_desc cv_lastUpdated ?c"
  show "fst (cleanup_old_conversations no_faults s u) = Inr ()"
    and "conversations_of (snd (cleanup_old_conversations no_faults s u)) u = take 1 ?sorted"
    and "\<forall>v. v \<noteq> u \<longrightarrow> conversations_of (snd (cleanup_old_conversations no_faults s u)) v =
           conversations_of s v"
  proof (atomize (full), cases "length ?c \<le> 1")
    case True
    then show "fst (cleanup_old_conversations no_faults s u) = Inr () \<and>
      conversations_of (snd (cleanup_old_conversations no_faults s u)) u = take 1 ?sorted \<and>
      (\<forall>v. v \<noteq> u \<longrightarrow> conversations_of (snd (cleanup_old_conversations no_faults s u)) v =
           conversations_of s v)"
      by (simp add: cleanup_old_conversations_eq order_by_desc_short)
  next
    case False
    then have "?sorted \<noteq> []" by auto
    then obtain h rest where sorted: "?sorted = h # rest"
      by (cases ?sorted) simp_all
    have dk: "distinct (map conversation_key ?sorted)"
      using assms by (rule order_by_desc_distinct)
    then have dr: "distinct (map conversation_key rest)" and hk: "conversation_key h \<notin> set (map conversation_key rest)"
      using sorted by simp_all
    have "set ?sorted = set ?c" by simp
    then have mem: "set ?c = insert h (set rest)" using sorted by simp
    then have sub: "set rest \<subseteq> set (conversations_container s)"
      by (auto simp: conversations_of_def)
    have del: "delete_each (\<lambda>conv. no_faults (DeleteConversation (cv_id conv))) conversation_key rest
                 (conversations_container s) =
               (Inr (), filter (\<lambda>d. conversation_key d \<notin> set (map conversation_key rest))
                          (conversations_container s))"
      using dr sub by (intro delete_each_ok) (simp_all add: no_faults_def)
    have eq: "cleanup_old_conversations no_faults s u =
        (Inr (), s\<lparr>conversations_container :=
              filter (\<lambda>d. conversation_key d \<notin> set (map conversation_key rest))
                (conversations_container s)\<rparr>)"
      using False by (simp add: cleanup_old_conversations_eq sorted del)
    have "filter (\<lambda>d. conversation_key d \<notin> set (map conversation_key rest)) ?c = [h]"
    proof (rule filter_all_but_one[OF assms _ hk])
      show "h \<in> set ?c" using mem by simp
      show "\<forall>x \<in> set ?c. x \<noteq> h \<longrightarrow> conversation_key x \<in> set (map conversation_key rest)"
        using mem by auto
    qed
    moreover have "conversations_of (snd (cleanup_old_conversations no_faults s u)) u =
        filter (\<lambda>d. conversation_key d \<notin> set (map conversation_key rest)) ?c"
      by (simp add: eq conversations_of_def conj_commute)
    ultimately have u: "conversations_of (snd (cleanup_old_conversations no_faults s u)) u = take 1 ?sorted"
      by (simp add: sorted)
    have "\<forall>d \<in> set rest. cv_userId d = u" using mem by (auto simp: conversations_of_def)
    then have "\<forall>v. v \<noteq> u \<longrightarrow>
        filter (\<lambda>d. cv_userId d = v)
          (filter (\<lambda>d. conversation_key d \<notin> set (map conversation_key rest)) (conversations_container s)) =
        filter (\<lambda>d. cv_userId d = v) (conversations_container s)"
      by (auto simp: conversation_key_def intro!: filter_cong)
    then have v: "\<forall>v. v \<noteq> u \<longrightarrow> conversations_of (snd (cleanup_old_conversations no_faults s u)) v =
           conversations_of s v"
      by (simp add: eq conversations_of_def)
    from eq u v show "fst (cleanup_old_conversations no_faults s u) = Inr () \<and>
      conversations_of (snd (cleanup_old_conversations no_faults s u)) u = take 1 ?sorted \<and>
      (\<forall>v. v \<noteq> u \<longrightarrow> conversations_of (snd (cleanup_old_conversations no_faults s u)) v =
           conversations_of s v)" by simp
  qed
qed


lemma upsert_docs_new:
  "\<forall>x \<in> set docs. key x \<noteq> key d \<Longrightarrow> upsert_docs key d docs = docs @ [d]"
  by (induction docs) auto

lemma filter_upsert_docs:
  assumes "P d" and "\<forall>x \<in> set docs. key x = key d \<longrightarrow> P x"
  shows "filter P (upsert_docs key d docs) = upsert_docs key d (filter P docs)"
  using assms by (induction docs) auto

lemma upsert_step:
  assumes "u \<noteq> []" and "\<forall>d \<in> set (conversations_of s u). cv_id d \<noteq> t"
  shows "conversations_of
           (snd (update_conversation_document E no_faults now s
                   (Some [(''thread_id'', t), (''user_id'', u)]) c md)) u =
         conversations_of s u @
           [\<lparr>cv_id = t, cv_userId = u, cv_lastUpdated = isoformat E now,
             cv_messages = serialize_for_cosmosdb E (checkpoint_messages c),
             cv_checkpointId = ck_id c, cv_metadata = serialize_for_cosmosdb E md\<rparr>]"
proof -
  let ?doc = "\<lparr>cv_id = t, cv_userId = u, cv_lastUpdated = isoformat E now,
             cv_messages = serialize_for_cosmosdb E (checkpoint_messages c),
             cv_checkpointId = ck_id c, cv_metadata = serialize_for_cosmosdb E md\<rparr>"
  let ?cfg = "[(''thread_id'', t), (''user_id'', u)]"
  have c: "conversations_container (snd (update_conversation_document E no_faults now s (Some ?cfg) c md)) =
           upsert_docs conversation_key ?doc (conversations_container s)"
    using assms(1) by (intro update_conversation_document_identified) simp_all
  have "filter (\<lambda>d. cv_userId d = u) (upsert_docs conversation_key ?doc (conversations_container s)) =
        upsert_docs conversation_key ?doc (conversations_of s u)"
    unfolding conversations_of_def
    by (intro filter_upsert_docs) (simp_all add: conversation_key_def)
  moreover have "upsert_docs conversation_key ?doc (conversations_of s u) = conversations_of s u @ [?doc]"
    using assms(2) by (intro upsert_docs_new) (simp add: conversation_key_def)
  ultimately show ?thesis by (simp add: c conversations_of_def)
qed

lemma directory_inv_upsert:
  assumes "u \<noteq> []" and "directory_inv s u written" and "t \<notin> set (map cv_id written)"
  shows "directory_inv
           (snd (update_conversation_document E no_faults now s
                   (Some [(''thread_id'', t), (''user_id'', u)]) c md)) u
           (written @
              [\<lparr>cv_id = t, cv_userId = u, cv_lastUpdated = isoformat E now,
                cv_messages = serialize_for_cosmosdb E (checkpoint_messages c),
                cv_checkpointId = ck_id c, cv_metadata = serialize_for_cosmosdb E md\<rparr>])"
proof -
  let ?doc = "\<lparr>cv_id = t, cv_userId = u, cv_lastUpdated = isoformat E now,
             cv_messages = serialize_for_cosmosdb E (checkpoint_messages c),
             cv_checkpointId = ck_id c, cv_metadata = serialize_for_cosmosdb E md\<rparr>"
  let ?old = "conversations_of s u"
  from assms(2) have d: "distinct (map conversation_key ?old)"
    and sub: "\<forall>x \<in> set ?old. x \<in> set written"
    and mx: "written = [] \<or> (\<exists>x \<in> set ?old. \<forall>w \<in> set written. cv_lastUpdated w \<le> cv_lastUpdated x)"
    by (simp_all add: directory_inv_def list_all_iff list_ex_iff)
  have fresh: "\<forall>x \<in> set ?old. cv_id x \<noteq> t" using sub assms(3) by auto
  have new: "conversations_of
           (snd (update_conversation_document E no_faults now s
                   (Some [(''thread_id'', t), (''user_id'', u)]) c md)) u = ?old @ [?doc]"
    using assms(1) fresh by (rule upsert_step)
  have 1: "distinct (map conversation_key (?old @ [?doc]))"
    using d fresh by (auto simp: conversation_key_def)
  have 2: "\<forall>x \<in> set (?old @ [?doc]). x \<in> set (written @ [?doc])" using sub by auto
  have 3: "\<exists>x \<in> set (?old @ [?doc]). \<forall>w \<in> set (written @ [?doc]). cv_lastUpdated w \<le> cv_lastUpdated x"
  proof (cases "written = []")
    case True
    then show ?thesis by auto
  next
    case False
    with mx obtain x where x: "x \<in> set ?old" "\<forall>w \<in> set written. cv_lastUpdated w \<le> cv_lastUpdated x"
      by blast
    show ?thesis
    proof (cases "cv_lastUpdated ?doc \<le> cv_lastUpdated x")
      case True
      with x show ?thesis by auto
    next
      case False
      then have "cv_lastUpdated x \<le> cv_lastUpdated ?doc" using linear by blast
      with x(2) have "\<forall>w \<in> set (written @ [?doc]). cv_lastUpdated w \<le> cv_lastUpdated ?doc"
        by (auto intro: order_trans)
      then show ?thesis by auto
    qed
  qed
  from 1 2 3 show ?thesis
    unfolding directory_inv_def new list_all_iff list_ex_iff by blast
qed

lemma directory_inv_cleanup:
  assumes "directory_inv s u written"
  shows "directory_inv (snd (cleanup_old_conversations no_faults s u)) u written"
proof -
  let ?old = "conversations_of s u"
  let ?sorted = "order_by_desc cv_lastUpdated ?old"
  from assms have d: "distinct (map conversation_key ?old)"
    and sub: "\<forall>x \<in> set ?old. x \<in> set written"
    and mx: "written = [] \<or> (\<exists>x \<in> set ?old. \<forall>w \<in> set written. cv_lastUpdated w \<le> cv_lastUpdated x)"
    by (simp_all add: directory_inv_def list_all_iff list_ex_iff)
  have new: "conversations_of (snd (cleanup_old_conversations no_faults s u)) u = take 1 ?sorted"
    using d by (rule cleanup_result(2))
  show ?thesis
  proof (cases ?sorted)
    case Nil
    then have "?old = []" by simp
    with mx have "written = []" by auto
    then show ?thesis unfolding directory_inv_def new Nil by simp
  next
    case (Cons h rest)
    from order_by_desc_ConsD[OF Cons] have h: "h \<in> set ?old"
      and top: "\<forall>x \<in> set ?old. cv_lastUpdated x \<le> cv_lastUpdated h" by auto
    have "written = [] \<or> (\<forall>w \<in> set written. cv_lastUpdated w \<le> cv_lastUpdated h)"
      using mx top by (auto intro: order_trans)
    then show ?thesis
      unfolding directory_inv_def new Cons using h sub by (auto simp: list_all_iff)
  qed
qed


lemma upsert_documents_ids: "map cv_id (upsert_documents E u ops) = upsert_threads ops"
  by (induction ops rule: upsert_threads.induct) simp_all

lemma run_directory_ops_inv:
  assumes "u \<noteq> []" and "directory_inv s u written"
    and "distinct (map cv_id written @ upsert_threads ops)"
  shows "directory_inv (run_directory_ops E u ops s) u (written @ upsert_documents E u ops)"
  using assms(2,3)
proof (induction ops arbitrary: s written)
  case Nil
  then show ?case by simp
next
  case (Cons op ops)
  show ?case
  proof (cases op)
    case (UpsertFromCheckpoint t c md now)
    let ?doc = "\<lparr>cv_id = t, cv_userId = u, cv_lastUpdated = isoformat E now,
                 cv_messages = serialize_for_cosmosdb E (checkpoint_messages c),
                 cv_checkpointId = ck_id c, cv_metadata = serialize_for_cosmosdb E md\<rparr>"
    let ?s1 = "snd (update_conversation_document E no_faults now s
                   (Some [(''thread_id'', t), (''user_id'', u)]) c md)"
    have "t \<notin> set (map cv_id written)" using Cons.prems(2) UpsertFromCheckpoint by auto
    from directory_inv_upsert[OF assms(1) Cons.prems(1) this, of E now c md]
    have inv: "directory_inv ?s1 u (written @ [?doc])" .
    have "distinct (map cv_id (written @ [?doc]) @ upsert_threads ops)"
      using Cons.prems(2) UpsertFromCheckpoint by auto
    from Cons.IH[OF inv this] show ?thesis using UpsertFromCheckpoint by simp
  next
    case ReconcileDuplicates
    have inv: "directory_inv (snd (cleanup_old_conversations no_faults s u)) u written"
      using Cons.prems(1) by (rule directory_inv_cleanup)
    have "distinct (map cv_id written @ upsert_threads ops)"
      using Cons.prems(2) ReconcileDuplicates by simp
    from Cons.IH[OF inv this] show ?thesis using ReconcileDuplicates by simp
  qed
qed

text \<open>
  Claim C4. For a user \<open>u\<close> (a non-empty id) without conversation document, run any
  sequence of upserts of conversation documents with distinct thread ids, at least one,
  with calls of \<^verbatim>\<open>cleanup_old_conversations\<close> anywhere between them, and then call
  \<^verbatim>\<open>cleanup_old_conversations\<close> once more, with no storage failure. The last call returns
  normally, and exactly one conversation document of the user is left: one of the
  documents written, whose \<^verbatim>\<open>lastUpdated\<close> is at least that of every document written.
\<close>

theorem one_conversation_per_user:
  assumes "u \<noteq> []" and "conversations_of s u = []"
    and "distinct (upsert_threads ops)" and "upsert_threads ops \<noteq> []"
  shows
    "fst (cleanup_old_conversations no_faults (run_directory_ops E u ops s) u) = Inr () \<and>
     (\<exists>d. conversations_of
             (snd (cleanup_old_conversations no_faults (run_directory_ops E u ops s) u)) u = [d] \<and>
          d \<in> set (upsert_documents E u ops) \<and>
          (\<forall>w \<in> set (upsert_documents E u ops). cv_lastUpdated w \<le> cv_lastUpdated d))"
proof -
  let ?s = "run_directory_ops E u ops s"
  let ?docs = "upsert_documents E u ops"
  have "directory_inv s u []" using assms(2) by (simp add: directory_inv_def)
  from run_directory_ops_inv[OF assms(1) this, of ops E] assms(3)
  have inv: "directory_inv ?s u ?docs" by simp
  have ne: "?docs \<noteq> []" using assms(4) upsert_documents_ids[of E u ops] by auto
  from inv have d: "distinct (map conversation_key (conversations_of ?s u))"
    by (simp add: directory_inv_def)
  have 1: "fst (cleanup_old_conversations no_faults ?s u) = Inr ()"
    using d by (rule cleanup_result(1))
  have inv': "directory_inv (snd (cleanup_old_conversations no_faults ?s u)) u ?docs"
    using inv by (rule directory_inv_cleanup)
  let ?final = "conversations_of (snd (cleanup_old_conversations no_faults ?s u)) u"
  from inv' ne obtain x where x: "x \<in> set ?final"
    "\<forall>w \<in> set ?docs. cv_lastUpdated w \<le> cv_lastUpdated x"
    and sub: "\<forall>y \<in> set ?final. y \<in> set ?docs"
    by (auto simp: directory_inv_def list_all_iff list_ex_iff)
  have "?final = take 1 (order_by_desc cv_lastUpdated (conversations_of ?s u))"
    using d by (rule cleanup_result(2))
  then have "length ?final \<le> 1" by simp
  with x(1) have "?final = [x]" by (cases ?final) auto
  with x sub 1 show ?thesis by auto
qed

theorem one_conversation_per_user_witness:
  "''alice'' \<noteq> [] \<and> conversations_of empty_store ''alice'' = [] \<and>
   distinct (upsert_threads three_threads) \<and> upsert_threads three_threads \<noteq> [] \<and>
   fst (cleanup_old_conversations no_faults
          (run_directory_ops table_env ''alice'' three_threads empty_store) ''alice'') = Inr () \<and>
   (\<exists>d. conversations_of
           (snd (cleanup_old_conversations no_faults
                   (run_directory_ops table_env ''alice'' three_threads empty_store) ''alice''))
           ''alice'' = [d] \<and>
        cv_id d = ''t2'' \<and> cv_lastUpdated d = ''2024-01-01T10:30:00'')"
proof -
  have u: "''alice'' \<noteq> []" by simp
  have none: "conversations_of empty_store ''alice'' = []"
    by (simp add: conversations_of_def empty_store_def)
  have dist: "distinct (upsert_threads three_threads)" and ne: "upsert_threads three_threads \<noteq> []"
    by (simp_all add: three_threads_def)
  have docs: "map (\<lambda>d. (cv_id d, cv_lastUpdated d)) (upsert_documents table_env ''alice'' three_threads) =
      [(''t1'', ''2024-01-01T09:00:00''), (''t2'', ''2024-01-01T10:30:00''), (''t3'', ''2024-01-01T09:00:00'')]"
    by (simp add: three_threads_def table_env_def table_isoformat_def instant1_def instant2_def)
  from one_conversation_per_user[OF u none dist ne, of table_env]
  obtain d where 1: "fst (cleanup_old_conversations no_faults
          (run_directory_ops table_env ''alice'' three_threads empty_store) ''alice'') = Inr ()"
    and 2: "conversations_of
           (snd (cleanup_old_conversations no_faults
                   (run_directory_ops table_env ''alice'' three_threads empty_store) ''alice''))
           ''alice'' = [d]"
    and 3: "d \<in> set (upsert_documents table_env ''alice'' three_threads)"
    and 4: "\<forall>w \<in> set (upsert_documents table_env ''alice'' three_threads).
              cv_lastUpdated w \<le> cv_lastUpdated d" by blast
  from 3 have "(cv_id d, cv_lastUpdated d) \<in>
      set (map (\<lambda>d. (cv_id d, cv_lastUpdated d)) (upsert_documents table_env ''alice'' three_threads))"
    by (simp only: set_map) (rule imageI)
  then have cases: "(cv_id d, cv_lastUpdated d) \<in> {(''t1'', ''2024-01-01T09:00:00''),
      (''t2'', ''2024-01-01T10:30:00''), (''t3'', ''2024-01-01T09:00:00'')}"
    unfolding docs by simp
  from 4 have "\<forall>p \<in> set (map (\<lambda>d. (cv_id d, cv_lastUpdated d))
                 (upsert_documents table_env ''alice'' three_threads)). snd p \<le> cv_lastUpdated d"
    by simp
  then have "''2024-01-01T10:30:00'' \<le> cv_lastUpdated d" unfolding docs by simp
  with cases have 5: "cv_id d = ''t2'' \<and> cv_lastUpdated d = ''2024-01-01T10:30:00''" by auto
  from u none dist ne 1 2 5 show ?thesis by blast
qed


section \<open>Two batches of pending writes\<close>























end
